theory Spec2Isabelle
  imports Complex_Main "HOL-Library.Word"
begin

section \<open>Python values used by the service\<close>

text \<open>
  A Python float is a finite real, an infinity or NaN.  Float literals of the source are
  read as the reals they denote (\<open>0.55\<close> is \<open>55/100\<close>); rounding is not modelled.
  Comparison follows IEEE 754: every comparison with NaN is false.
\<close>

datatype pyfloat = Finite real | PosInf | NegInf | NaN

fun float_ge :: "pyfloat \<Rightarrow> pyfloat \<Rightarrow> bool" where
  "float_ge NaN _ = False"
| "float_ge _ NaN = False"
| "float_ge PosInf _ = True"
| "float_ge _ NegInf = True"
| "float_ge (Finite a) (Finite b) = (b \<le> a)"
| "float_ge (Finite _) PosInf = False"
| "float_ge NegInf _ = False"

text \<open>
  Python strings in identifier positions (profile keys, class labels, column names, file
  names) are \<open>string\<close>: the code points below 256.  \<open>str.lower\<close> on that range maps
  \<open>A\<close>--\<open>Z\<close> and the Latin-1 capitals \<open>U+00C0\<close>--\<open>U+00DE\<close> (without the
  multiplication sign \<open>U+00D7\<close>) to the letter 32 positions later.
\<close>

definition lower_char :: "char \<Rightarrow> char" where
  "lower_char c =
     (let n = (of_char c :: nat)
      in if (65 \<le> n \<and> n \<le> 90) \<or> (192 \<le> n \<and> n \<le> 222 \<and> n \<noteq> 215)
         then char_of (n + 32) else c)"

definition lower :: "string \<Rightarrow> string" where
  "lower s = map lower_char s"

text \<open>\<open>d.get(k, default)\<close> on a dictionary.\<close>

definition dict_get :: "('k \<rightharpoonup> 'v) \<Rightarrow> 'k \<Rightarrow> 'v \<Rightarrow> 'v" where
  "dict_get d k dflt = (case d k of Some v \<Rightarrow> v | None \<Rightarrow> dflt)"

text \<open>
  The builtin \<open>float(s)\<close> is a parameter \<open>to_float\<close> of the model (\<open>None\<close> is its
  \<open>ValueError\<close>).  To run the model on concrete inputs, \<open>float_decimal\<close> reads the
  fragment \<open>digits\<close> and \<open>digits.digits\<close> of its grammar.
\<close>

definition digit_val :: "char \<Rightarrow> nat option" where
  "digit_val c =
     (let n = (of_char c :: nat) in if 48 \<le> n \<and> n \<le> 57 then Some (n - 48) else None)"

fun digits_val :: "nat \<Rightarrow> string \<Rightarrow> nat option" where
  "digits_val acc [] = Some acc"
| "digits_val acc (c # cs) =
     (case digit_val c of None \<Rightarrow> None | Some d \<Rightarrow> digits_val (10 * acc + d) cs)"

definition float_decimal :: "string \<Rightarrow> pyfloat option" where
  "float_decimal s =
     (let ip = takeWhile (\<lambda>c. c \<noteq> CHR ''.'') s;
          rest = dropWhile (\<lambda>c. c \<noteq> CHR ''.'') s
      in if ip = [] then None
         else case digits_val 0 ip of
           None \<Rightarrow> None
         | Some i \<Rightarrow>
             (case rest of
                [] \<Rightarrow> Some (Finite (real i))
              | _ # fp \<Rightarrow>
                  (if fp = [] then None
                   else case digits_val 0 fp of
                     None \<Rightarrow> None
                   | Some f \<Rightarrow> Some (Finite (real i + real f / 10 ^ length fp)))))"

section \<open>Profiles and threshold resolution (api/main.py)\<close>

record profile =
  label :: string
  threshold :: pyfloat
  description :: string

definition PROFILE_DEFINITIONS :: "(string \<times> profile) list" where
  "PROFILE_DEFINITIONS =
    [(''default'',
        \<lparr>label = ''Default (balanced)'', threshold = Finite (55/100),
         description = ''General-purpose profile with balanced spam capture vs. false positives.''\<rparr>),
     (''telco'',
        \<lparr>label = ''Telecom / SMS filtering'', threshold = Finite (55/100),
         description = ''Suitable for telecoms: slightly conservative to avoid blocking real OTPs / alerts.''\<rparr>),
     (''bank'',
        \<lparr>label = ''Bank / Financial (very strict)'', threshold = Finite (65/100),
         description = ''Very strict: only mark as spam when highly confident. Protects legitimate financial messages.''\<rparr>),
     (''marketing'',
        \<lparr>label = ''Email marketing / newsletters (aggressive)'', threshold = Finite (45/100),
         description = ''Aggressive: catch promotional & marketing spam even if it risks some false positives.''\<rparr>),
     (''aggressive'',
        \<lparr>label = ''Aggressive (max spam capture)'', threshold = Finite (45/100),
         description = ''Maximize spam capture. Use when you prefer to over-block rather than miss spam.''\<rparr>),
     (''balanced'',
        \<lparr>label = ''Balanced (general use)'', threshold = Finite (55/100),
         description = ''Balanced behavior similar to 'default', suitable for most use cases.''\<rparr>),
     (''conservative'',
        \<lparr>label = ''Conservative (protect REAL messages)'', threshold = Finite (60/100),
         description = ''More conservative: only flag spam when probability is high.''\<rparr>)]"

definition PROFILE_THRESHOLDS :: "string \<rightharpoonup> pyfloat" where
  "PROFILE_THRESHOLDS = map_of (map (\<lambda>(key, v). (key, threshold v)) PROFILE_DEFINITIONS)"

definition PROFILE_ALIASES :: "string \<rightharpoonup> string" where
  "PROFILE_ALIASES =
     map_of [(''financial'', ''bank''), (''telecom'', ''telco''),
             (''email_marketing'', ''marketing''), (''newsletter'', ''marketing'')]"

text \<open>
  \<open>SYSTEM_PROFILE = os.getenv("SYSTEM_PROFILE", "default").lower()\<close>; the argument is
  the value of the environment variable, \<open>None\<close> when it is unset.
\<close>

definition SYSTEM_PROFILE :: "string option \<Rightarrow> string" where
  "SYSTEM_PROFILE env = lower (case env of None \<Rightarrow> ''default'' | Some v \<Rightarrow> v)"

text \<open>
  \<open>compute_spam_threshold\<close>: \<open>env_override\<close> is \<open>os.getenv("SPAM_THRESHOLD")\<close>.  An
  override that \<open>float\<close> rejects is logged and ignored.  \<open>PROFILE_THRESHOLDS["default"]\<close>
  cannot raise: the key is in the catalog (\<open>default_in_catalog\<close> below).
\<close>

definition compute_spam_threshold ::
    "(string \<Rightarrow> pyfloat option) \<Rightarrow> string option \<Rightarrow> string \<Rightarrow> pyfloat" where
  "compute_spam_threshold to_float env_override system_profile =
     (let from_profile =
            (let profile_key = dict_get PROFILE_ALIASES system_profile system_profile
             in dict_get PROFILE_THRESHOLDS profile_key (the (PROFILE_THRESHOLDS ''default'')))
      in case env_override of
           None \<Rightarrow> from_profile
         | Some s \<Rightarrow> (case to_float s of Some v \<Rightarrow> v | None \<Rightarrow> from_profile))"

text \<open>
  \<open>resolve_threshold\<close>; the first argument is the module global \<open>SPAM_THRESHOLD\<close>,
  computed once by \<open>compute_spam_threshold\<close>.  \<open>if profile:\<close> is false for \<open>None\<close> and
  for the empty string.
\<close>

definition resolve_threshold :: "pyfloat \<Rightarrow> string option \<Rightarrow> pyfloat" where
  "resolve_threshold SPAM_THRESHOLD prof =
     (case prof of
        None \<Rightarrow> SPAM_THRESHOLD
      | Some p \<Rightarrow>
          if p = [] then SPAM_THRESHOLD
          else (let key = lower p;
                    key = dict_get PROFILE_ALIASES key key
                in case PROFILE_THRESHOLDS key of
                     Some t \<Rightarrow> t
                   | None \<Rightarrow> SPAM_THRESHOLD))"

section \<open>Message texts, errors and arrays\<close>

text \<open>
  A message text is a Python \<open>str\<close> of arbitrary Unicode content: the list of its code
  points.  \<open>isspace\<close> is \<open>str.isspace\<close> on one character (the characters \<open>str.strip\<close>
  removes), \<open>strip\<close> is \<open>str.strip()\<close>.
\<close>

type_synonym ustr = "nat list"

definition isspace :: "nat \<Rightarrow> bool" where
  "isspace c =
     ((9 \<le> c \<and> c \<le> 13) \<or> (28 \<le> c \<and> c \<le> 32) \<or> c = 133 \<or> c = 160 \<or> c = 5760
      \<or> (8192 \<le> c \<and> c \<le> 8202) \<or> c = 8232 \<or> c = 8233 \<or> c = 8239 \<or> c = 8287
      \<or> c = 12288)"

definition strip :: "ustr \<Rightarrow> ustr" where
  "strip s = rev (dropWhile isspace (rev (dropWhile isspace s)))"

text \<open>
  Exceptions.  \<open>HTTPException\<close> carries the status and the static part of the detail
  message; any other exception that leaves a route is answered by the handler
  \<open>_unhandled_ex\<close> with status 500.  \<open>status_code\<close> is the status of the response.
  \<open>TransformError\<close> stands for whatever exception the vectorizer raises.
\<close>

datatype exn =
    HTTPException nat string
  | IndexError
  | ValueError
  | KeyError
  | UnicodeDecodeError
  | ReadError
  | RuntimeError
  | TransformError

fun status_code :: "exn + 'a \<Rightarrow> nat" where
  "status_code (Inr _) = 200"
| "status_code (Inl (HTTPException s _)) = s"
| "status_code (Inl _) = 500"

text \<open>
  A two-dimensional numpy array: its shape and its elements.  \<open>column a j\<close> is
  \<open>a[:, j]\<close> for \<open>j \<ge> 0\<close>, \<open>last_column a\<close> is \<open>a[:, -1]\<close>; both raise \<open>IndexError\<close>
  out of range.  \<open>nonzero bs\<close> is \<open>bs.nonzero()[0]\<close> on a one-dimensional boolean
  array, the indices of its true entries in increasing order, and \<open>np_where\<close> with one
  argument is the same function.
\<close>

record ndarray =
  shape0 :: nat
  shape1 :: nat
  item :: "nat \<Rightarrow> nat \<Rightarrow> pyfloat"

definition column :: "ndarray \<Rightarrow> nat \<Rightarrow> exn + pyfloat list" where
  "column a j =
     (if j < shape1 a then Inr (map (\<lambda>i. item a i j) [0..<shape0 a]) else Inl IndexError)"

definition last_column :: "ndarray \<Rightarrow> exn + pyfloat list" where
  "last_column a = (if shape1 a = 0 then Inl IndexError else column a (shape1 a - 1))"

definition nonzero :: "bool list \<Rightarrow> nat list" where
  "nonzero bs = filter (\<lambda>i. bs ! i) [0..<length bs]"

definition np_where :: "bool list \<Rightarrow> nat list" where
  "np_where bs = nonzero bs"

section \<open>The model bundle\<close>

text \<open>
  The vectorizer and the classifier are external collaborators; the bundle holds what the
  pipeline calls.  \<open>'x\<close> is the type of feature matrices.  \<open>vectorizer_transform\<close>
  is \<open>vectorizer.transform\<close>; it is \<open>None\<close> on the texts for which the call raises
  (scikit-learn's \<open>TfidfVectorizer\<close>, which the training scripts put in the bundle,
  raises on an empty list of documents).  Class labels are taken as
  the strings \<open>str\<close> and \<open>astype(str)\<close> make of them.  \<open>predict_proba\<close> and
  \<open>decision_function\<close> are \<open>None\<close> when the classifier has no such attribute
  (\<open>hasattr\<close> is false).  \<open>decision_function\<close> returns a one- or a two-dimensional
  array.
\<close>

datatype dfun = D1 "pyfloat list" | D2 ndarray

record 'x classifier =
  classes :: "string list"
  model_predict :: "'x \<Rightarrow> string list"
  predict_proba :: "('x \<Rightarrow> ndarray) option"
  decision_function :: "('x \<Rightarrow> dfun) option"

record 'x model_bundle =
  vectorizer_transform :: "ustr list \<Rightarrow> 'x option"
  model :: "'x classifier"

section \<open>Single and batch scoring (api/main.py)\<close>

text \<open>
  The response models of api/schemas.py.  \<open>BatchPredictItem\<close> has the fields of
  \<open>PredictOut\<close>; the request identifier, copied from the middleware's state, is left out.
\<close>

record PredictOut =
  out_text :: ustr
  pred :: string
  proba_spam :: "pyfloat option"

record BatchPredictOut =
  batch_size :: nat
  items :: "PredictOut list"

text \<open>
  \<open>predict\<close>: \<open>MODEL_BUNDLE\<close> and \<open>SPAM_THRESHOLD\<close> are the module globals,
  \<open>payload_text\<close> is \<open>payload.text\<close>, \<open>prof\<close> the query parameter \<open>profile\<close>.
\<close>

definition predict ::
    "'x model_bundle option \<Rightarrow> pyfloat \<Rightarrow> ustr \<Rightarrow> string option \<Rightarrow> exn + PredictOut" where
  "predict MODEL_BUNDLE SPAM_THRESHOLD payload_text prof =
     (case MODEL_BUNDLE of
        None \<Rightarrow> Inl (HTTPException 503 ''Model not loaded'')
      | Some b \<Rightarrow>
          (let txt = strip payload_text
           in if txt = [] then Inl (HTTPException 422 (''Empty 'text'' @ [CHR 0x27]))
              else
                (case vectorizer_transform b [txt] of
                   None \<Rightarrow> Inl TransformError
                 | Some X \<Rightarrow>
                     (let clf = model b;
                          thr = resolve_threshold SPAM_THRESHOLD prof
                      in case predict_proba clf of
                           Some pp \<Rightarrow>
                             (let proba = pp X;
                                  spam_idx = np_where (map (\<lambda>c. c = ''spam'') (classes clf));
                                  spam_idx = (case spam_idx of
                                                i # _ \<Rightarrow> i
                                              | [] \<Rightarrow> if shape1 proba = 2 then 1 else 0)
                              in case column proba spam_idx of
                                   Inl e \<Rightarrow> Inl e
                                 | Inr [] \<Rightarrow> Inl IndexError
                                 | Inr (p # _) \<Rightarrow>
                                     Inr \<lparr>out_text = txt,
                                          pred = (if float_ge p thr then ''spam'' else ''ham''),
                                          proba_spam = Some p\<rparr>)
                         | None \<Rightarrow>
                             (case model_predict clf X of
                                [] \<Rightarrow> Inl IndexError
                              | raw # _ \<Rightarrow>
                                  Inr \<lparr>out_text = txt, pred = raw, proba_spam = None\<rparr>)))))"

text \<open>
  The loop \<open>for i, p in enumerate(spam_probs)\<close> of \<open>batch\<close>: it writes \<open>probs[i]\<close>,
  then \<open>preds[i]\<close>; both lists have the length of \<open>texts\<close>, and an index beyond it
  raises.
\<close>

fun batch_loop ::
    "pyfloat \<Rightarrow> nat \<Rightarrow> pyfloat list \<Rightarrow> string list \<times> pyfloat option list
       \<Rightarrow> exn + string list \<times> pyfloat option list" where
  "batch_loop thr i [] (preds, probs) = Inr (preds, probs)"
| "batch_loop thr i (p # ps) (preds, probs) =
     (if i < length probs
      then batch_loop thr (Suc i) ps
             (preds[i := (if float_ge p thr then ''spam'' else ''ham'')], probs[i := Some p])
      else Inl IndexError)"

text \<open>
  \<open>batch\<close>: \<open>MAX_BATCH\<close> is the module global \<open>int(os.getenv("MAX_BATCH", "1000"))\<close>,
  \<open>payload_texts\<close> is \<open>payload.texts\<close>.  The detail of the 413 response also names
  the limit.
\<close>

definition batch ::
    "'x model_bundle option \<Rightarrow> int \<Rightarrow> pyfloat \<Rightarrow> ustr list \<Rightarrow> string option
       \<Rightarrow> exn + BatchPredictOut" where
  "batch MODEL_BUNDLE MAX_BATCH SPAM_THRESHOLD payload_texts prof =
     (case MODEL_BUNDLE of
        None \<Rightarrow> Inl (HTTPException 503 ''Model not loaded'')
      | Some b \<Rightarrow>
          if payload_texts = [] then Inl (HTTPException 422 ''No texts provided'')
          else if int (length payload_texts) > MAX_BATCH
          then Inl (HTTPException 413 ''Batch too large'')
          else
            (let clf = model b;
                 texts = map strip payload_texts
             in case vectorizer_transform b texts of
                  None \<Rightarrow> Inl TransformError
                | Some X \<Rightarrow>
                    (let preds = replicate (length texts) ''ham'';
                         probs = replicate (length texts) None;
                         thr = resolve_threshold SPAM_THRESHOLD prof;
                         scored =
                           (case predict_proba clf of
                              Some pp \<Rightarrow>
                                (let proba = pp X;
                                     spam_idx = nonzero (map (\<lambda>c. c = ''spam'') (classes clf));
                                     spam_idx = (case spam_idx of
                                                   i # _ \<Rightarrow> i
                                                 | [] \<Rightarrow> if shape1 proba = 2 then 1 else 0)
                                 in case column proba spam_idx of
                                      Inl e \<Rightarrow> Inl e
                                    | Inr spam_probs \<Rightarrow>
                                        batch_loop thr 0 spam_probs (preds, probs))
                            | None \<Rightarrow> Inr (model_predict clf X, probs))
                     in case scored of
                          Inl e \<Rightarrow> Inl e
                        | Inr (preds, probs) \<Rightarrow>
                            (let items =
                                   map (\<lambda>(t, pred_label, pr).
                                          \<lparr>out_text = t, pred = pred_label, proba_spam = pr\<rparr>)
                                       (zip texts (zip preds probs))
                             in Inr \<lparr>batch_size = length items, items = items\<rparr>))))"

section \<open>Bytes, lines, paths and data frames\<close>

text \<open>
  \<open>bytes.decode("utf-8")\<close> in strict mode: \<open>None\<close> is \<open>UnicodeDecodeError\<close>.
  Overlong forms, surrogates and code points beyond \<open>U+10FFFF\<close> are rejected, as the
  second-byte ranges of the lead bytes \<open>E0\<close>, \<open>ED\<close>, \<open>F0\<close> and \<open>F4\<close> say.
  \<open>decode_latin1\<close> is \<open>bytes.decode("latin-1")\<close>, which accepts every byte.
\<close>

definition cont :: "nat \<Rightarrow> bool" where
  "cont b = (128 \<le> b \<and> b \<le> 191)"

definition second_of3 :: "nat \<Rightarrow> nat \<Rightarrow> bool" where
  "second_of3 b0 b1 =
     (if b0 = 224 then 160 \<le> b1 \<and> b1 \<le> 191
      else if b0 = 237 then 128 \<le> b1 \<and> b1 \<le> 159
      else cont b1)"

definition second_of4 :: "nat \<Rightarrow> nat \<Rightarrow> bool" where
  "second_of4 b0 b1 =
     (if b0 = 240 then 144 \<le> b1 \<and> b1 \<le> 191
      else if b0 = 244 then 128 \<le> b1 \<and> b1 \<le> 143
      else cont b1)"

fun utf8_decode :: "nat list \<Rightarrow> ustr option" where
  "utf8_decode [] = Some []"
| "utf8_decode (b0 # bs) =
     (if b0 < 128 then map_option (Cons b0) (utf8_decode bs)
      else if 194 \<le> b0 \<and> b0 < 224 then
        (case bs of
           b1 # r \<Rightarrow>
             if cont b1
             then map_option (Cons ((b0 - 192) * 64 + (b1 - 128))) (utf8_decode r)
             else None
         | [] \<Rightarrow> None)
      else if 224 \<le> b0 \<and> b0 < 240 then
        (case bs of
           b1 # b2 # r \<Rightarrow>
             if second_of3 b0 b1 \<and> cont b2
             then map_option
                    (Cons ((b0 - 224) * 4096 + (b1 - 128) * 64 + (b2 - 128)))
                    (utf8_decode r)
             else None
         | _ \<Rightarrow> None)
      else if 240 \<le> b0 \<and> b0 < 245 then
        (case bs of
           b1 # b2 # b3 # r \<Rightarrow>
             if second_of4 b0 b1 \<and> cont b2 \<and> cont b3
             then map_option
                    (Cons ((b0 - 240) * 262144 + (b1 - 128) * 4096 + (b2 - 128) * 64
                           + (b3 - 128)))
                    (utf8_decode r)
             else None
         | _ \<Rightarrow> None)
      else None)"

definition decode_utf8 :: "8 word list \<Rightarrow> ustr option" where
  "decode_utf8 content = utf8_decode (map unat content)"

definition decode_latin1 :: "8 word list \<Rightarrow> ustr option" where
  "decode_latin1 content = Some (map unat content)"

text \<open>
  \<open>str.splitlines()\<close>: a line ends at each of the characters of \<open>is_linebreak\<close>,
  \<open>CR LF\<close> counts once, and no empty line follows a final line end.  The first
  argument of \<open>splitlines_from\<close> is the current line, reversed.
\<close>

definition is_linebreak :: "nat \<Rightarrow> bool" where
  "is_linebreak c =
     (c = 10 \<or> c = 11 \<or> c = 12 \<or> c = 13 \<or> c = 28 \<or> c = 29 \<or> c = 30 \<or> c = 133
      \<or> c = 8232 \<or> c = 8233)"

fun splitlines_from :: "ustr \<Rightarrow> ustr \<Rightarrow> ustr list" where
  "splitlines_from cur [] = (if cur = [] then [] else [rev cur])"
| "splitlines_from cur (c # cs) =
     (if c = 13 \<and> cs \<noteq> [] \<and> hd cs = 10 then rev cur # splitlines_from [] (tl cs)
      else if is_linebreak c then rev cur # splitlines_from [] cs
      else splitlines_from (c # cur) cs)"

definition splitlines :: "ustr \<Rightarrow> ustr list" where
  "splitlines s = splitlines_from [] s"

text \<open>An identifier as a message text.\<close>

definition ustr_of :: "string \<Rightarrow> ustr" where
  "ustr_of s = map of_char s"

text \<open>
  \<open>Path(name).suffix\<close> and \<open>Path(name).stem\<close> of pathlib for POSIX paths.  The
  path is split at slashes, and empty components and components \<open>.\<close> are dropped
  (\<open>notes.txt/\<close> and \<open>./notes.txt\<close> name \<open>notes.txt\<close>); the name is the last
  component left, empty when there is none.  The suffix starts at the last dot of the
  name, unless that dot is its first or its last character.
\<close>

fun split_slash :: "string \<Rightarrow> string \<Rightarrow> string list" where
  "split_slash cur [] = [rev cur]"
| "split_slash cur (c # cs) =
     (if c = CHR ''/'' then rev cur # split_slash [] cs else split_slash (c # cur) cs)"

definition path_parts :: "string \<Rightarrow> string list" where
  "path_parts p = filter (\<lambda>q. q \<noteq> [] \<and> q \<noteq> ''.'') (split_slash [] p)"

definition path_name :: "string \<Rightarrow> string" where
  "path_name p = (case rev (path_parts p) of [] \<Rightarrow> [] | nm # _ \<Rightarrow> nm)"

definition has_suffix :: "string \<Rightarrow> bool" where
  "has_suffix nm =
     (let after = takeWhile (\<lambda>c. c \<noteq> CHR ''.'') (rev nm)
      in CHR ''.'' \<in> set nm \<and> after \<noteq> [] \<and> Suc (length after) < length nm)"

definition path_suffix :: "string \<Rightarrow> string" where
  "path_suffix p =
     (let nm = path_name p
      in if has_suffix nm
         then CHR ''.'' # rev (takeWhile (\<lambda>c. c \<noteq> CHR ''.'') (rev nm))
         else [])"

definition path_stem :: "string \<Rightarrow> string" where
  "path_stem p =
     (let nm = path_name p
      in if has_suffix nm
         then rev (tl (dropWhile (\<lambda>c. c \<noteq> CHR ''.'') (rev nm)))
         else nm)"

text \<open>
  A pandas data frame: the length of its index and its columns in order.  A cell is a
  string or a float.  \<open>df_getitem\<close> is \<open>df[name]\<close>, \<open>df_setitem\<close> is
  \<open>df[name] = values\<close> for a list or array: it raises \<open>ValueError\<close> when the length
  is not that of the index; otherwise (\<open>with_column\<close>) it replaces a column of that
  name in place and appends a new one when there is none.  \<open>DataFrame_text\<close> is \<open>pd.DataFrame({"text": lines})\<close>.
\<close>

datatype cell = Str ustr | Num pyfloat

record dataframe =
  nrows :: nat
  cols :: "(string \<times> cell list) list"

definition columns :: "dataframe \<Rightarrow> string list" where
  "columns df = map fst (cols df)"

definition df_getitem :: "dataframe \<Rightarrow> string \<Rightarrow> exn + cell list" where
  "df_getitem df name = (case map_of (cols df) name of None \<Rightarrow> Inl KeyError | Some c \<Rightarrow> Inr c)"

definition with_column :: "dataframe \<Rightarrow> string \<Rightarrow> cell list \<Rightarrow> dataframe" where
  "with_column df name vals =
     (if name \<in> set (columns df)
      then df\<lparr>cols := map (\<lambda>(k, v). if k = name then (k, vals) else (k, v)) (cols df)\<rparr>
      else df\<lparr>cols := cols df @ [(name, vals)]\<rparr>)"

definition df_setitem :: "dataframe \<Rightarrow> string \<Rightarrow> cell list \<Rightarrow> exn + dataframe" where
  "df_setitem df name vals =
     (if length vals \<noteq> nrows df then Inl ValueError else Inr (with_column df name vals))"

definition DataFrame_text :: "ustr list \<Rightarrow> dataframe" where
  "DataFrame_text lines = \<lparr>nrows = length lines, cols = [(''text'', map Str lines)]\<rparr>"

text \<open>
  What the service calls of pandas and of Python's float formatting, as parameters:
  \<open>read_csv\<close> on the decoded text and \<open>read_excel\<close> on the bytes (\<open>None\<close> when they
  raise), and \<open>str_of_float\<close>, the string \<open>astype(str)\<close> makes of a float cell.
\<close>

record pandas =
  read_csv :: "ustr \<Rightarrow> dataframe option"
  read_excel :: "8 word list \<Rightarrow> dataframe option"
  str_of_float :: "pyfloat \<Rightarrow> ustr"

definition astype_str :: "pandas \<Rightarrow> cell \<Rightarrow> ustr" where
  "astype_str pd c = (case c of Str s \<Rightarrow> s | Num f \<Rightarrow> str_of_float pd f)"

section \<open>File upload (api/main.py)\<close>

text \<open>
  The lines of a plain-text upload, as both line branches of \<open>file_predict\<close> build
  them: decode as UTF-8, split, keep the lines that are non-empty after \<open>strip\<close>, stripped.
\<close>

definition lines_frame :: "8 word list \<Rightarrow> exn + dataframe" where
  "lines_frame content =
     (case decode_utf8 content of
        None \<Rightarrow> Inl UnicodeDecodeError
      | Some s \<Rightarrow>
          (let lines = splitlines s;
               lines = map strip (filter (\<lambda>ln. strip ln \<noteq> []) lines)
           in Inr (DataFrame_text lines)))"

text \<open>
  Step 1 of \<open>file_predict\<close>, the \<open>try\<close> block that reads the file by its extension.
  For \<open>.csv\<close> the inner \<open>try\<close> decodes and parses; when either raises, the handler
  decodes again and takes the lines.  \<open>HTTPException\<close> passes through the outer
  handlers, every other exception becomes a 400 whose detail also quotes the exception.
\<close>

definition read_upload :: "pandas \<Rightarrow> string \<Rightarrow> 8 word list \<Rightarrow> exn + dataframe" where
  "read_upload pd ext content =
     (let loaded =
            (if ext = ''.csv'' then
               (case decode_utf8 content of
                  None \<Rightarrow> lines_frame content
                | Some s \<Rightarrow>
                    (case read_csv pd s of
                       Some df \<Rightarrow> Inr df
                     | None \<Rightarrow> lines_frame content))
             else if ext = ''.xlsx'' \<or> ext = ''.xls'' then
               (case read_excel pd content of
                  Some df \<Rightarrow> Inr df
                | None \<Rightarrow> Inl ReadError)
             else if ext = ''.txt'' then lines_frame content
             else Inl (HTTPException 415 ''Unsupported file type''))
      in case loaded of
           Inr df \<Rightarrow> Inr df
         | Inl (HTTPException st d) \<Rightarrow> Inl (HTTPException st d)
         | Inl _ \<Rightarrow> Inl (HTTPException 400 ''Could not read file''))"

text \<open>
  The response of \<open>file_predict\<close>: the attachment's file name and the frame that
  \<open>to_csv(index=False)\<close> writes, one header line of column names and one line per row.
\<close>

record file_response =
  out_name :: string
  body :: dataframe

definition file_predict ::
    "'x model_bundle option \<Rightarrow> pyfloat \<Rightarrow> pandas \<Rightarrow> string option \<Rightarrow> 8 word list
       \<Rightarrow> string option \<Rightarrow> exn + file_response" where
  "file_predict MODEL_BUNDLE SPAM_THRESHOLD pd filename content prof =
     (case MODEL_BUNDLE of
        None \<Rightarrow> Inl (HTTPException 503 ''Model not loaded'')
      | Some b \<Rightarrow>
          (case filename of
             None \<Rightarrow> Inl (HTTPException 400 ''Uploaded file must have a name'')
           | Some original_name \<Rightarrow>
               if original_name = [] then Inl (HTTPException 400 ''Uploaded file must have a name'')
               else
                 (case read_upload pd (lower (path_suffix original_name)) content of
                    Inl e \<Rightarrow> Inl e
                  | Inr df \<Rightarrow>
                      if ''text'' \<notin> set (columns df)
                      then Inl (HTTPException 422 ''Input must contain a 'text' column (or lines for .txt).'')
                      else
                        (case df_getitem df ''text'' of
                           Inl e \<Rightarrow> Inl e
                         | Inr text_col \<Rightarrow>
                             (let clf = model b;
                                  texts = map (astype_str pd) text_col
                              in case vectorizer_transform b texts of
                                   None \<Rightarrow> Inl TransformError
                                 | Some X \<Rightarrow>
                             (let thr = resolve_threshold SPAM_THRESHOLD prof;
                                  scored =
                                    (case predict_proba clf of
                                       Some pp \<Rightarrow>
                                         (let proba = pp X;
                                              spam_idx = nonzero (map (\<lambda>c. c = ''spam'') (classes clf));
                                              spam_idx = (case spam_idx of
                                                            i # _ \<Rightarrow> i
                                                          | [] \<Rightarrow> if shape1 proba = 2 then 1 else 0)
                                          in case column proba spam_idx of
                                               Inl e \<Rightarrow> Inl e
                                             | Inr spam_probs \<Rightarrow>
                                                 Inr (map (\<lambda>p. if float_ge p thr then ''spam'' else ''ham'')
                                                        spam_probs,
                                                      Some spam_probs))
                                     | None \<Rightarrow> Inr (model_predict clf X, None))
                              in case scored of
                                   Inl e \<Rightarrow> Inl e
                                 | Inr (preds, spam_probs) \<Rightarrow>
                                     (case df_setitem df ''pred'' (map (\<lambda>l. Str (ustr_of l)) preds) of
                                        Inl e \<Rightarrow> Inl e
                                      | Inr df1 \<Rightarrow>
                                          (case (case spam_probs of
                                                   None \<Rightarrow> Inr df1
                                                 | Some ps \<Rightarrow> df_setitem df1 ''proba_spam'' (map Num ps)) of
                                             Inl e \<Rightarrow> Inl e
                                           | Inr df2 \<Rightarrow>
                                               Inr \<lparr>out_name = ''prediction_'' @ path_stem original_name
                                                                @ ''.csv'',
                                                    body = df2\<rparr>))))))))"

section \<open>The batch scorer of the command line (src/batch_predict.py)\<close>

definition FALLBACK_ENCODINGS :: "string list" where
  "FALLBACK_ENCODINGS = [''utf-8'', ''utf-8-sig'', ''cp1252'', ''latin-1'', ''ISO-8859-1'']"

text \<open>
  \<open>_detect_text_col\<close>.  \<open>cols_lower\<close> is built by a dict comprehension, so of two
  columns with the same lowercased name the later one stays.  \<open>is_string_dtype\<close> is
  pandas' test on a column, a parameter.
\<close>

definition detect_text_col ::
    "(cell list \<Rightarrow> bool) \<Rightarrow> dataframe \<Rightarrow> string option \<Rightarrow> exn + string" where
  "detect_text_col is_string_dtype df preferred =
     (let cols_lower = map_of (rev (map (\<lambda>c. (lower c, c)) (columns df)));
          detected =
            (case List.map_filter cols_lower [''text'', ''message'', ''sms'', ''content'', ''body''] of
               c # _ \<Rightarrow> Inr c
             | [] \<Rightarrow>
                 (case List.find (\<lambda>(c, v). is_string_dtype v) (cols df) of
                    Some (c, _) \<Rightarrow> Inr c
                  | None \<Rightarrow> Inl ValueError))
      in case preferred of
           None \<Rightarrow> detected
         | Some p \<Rightarrow> if p \<noteq> [] \<and> p \<in> set (columns df) then Inr p else detected)"

text \<open>
  \<open>_iter_csv\<close>: \<open>rd enc\<close> is the call \<open>pd.read_csv(path, sep=None, engine="python",
  encoding=enc, chunksize=chunksize)\<close>, which returns the reader or raises.  The
  encodings are tried in order; the first reader obtained is returned, and the last
  exception is raised when none is.  The reader reads and decodes the file as it is
  iterated: it is the list of what each step of the iteration does, yield a chunk or
  raise, so an undecodable byte further down the file raises in the loop of \<open>main\<close>,
  where no other encoding is tried.
\<close>

fun iter_csv_from :: "(string \<Rightarrow> exn + 'r) \<Rightarrow> exn option \<Rightarrow> string list \<Rightarrow> exn + 'r" where
  "iter_csv_from rd last_err [] =
     Inl (case last_err of Some e \<Rightarrow> e | None \<Rightarrow> RuntimeError)"
| "iter_csv_from rd last_err (enc # encs) =
     (case rd enc of
        Inr reader \<Rightarrow> Inr reader
      | Inl e \<Rightarrow> iter_csv_from rd (Some e) encs)"

definition iter_csv :: "(string \<Rightarrow> exn + 'r) \<Rightarrow> exn + 'r" where
  "iter_csv rd = iter_csv_from rd None FALLBACK_ENCODINGS"

text \<open>
  The output file is the list of the chunks appended to it, each with the flag
  \<open>header\<close> that \<open>to_csv\<close> was given.  \<open>_write_chunk\<close> appends and returns \<open>True\<close>.
\<close>

type_synonym outfile = "(bool \<times> dataframe) list"

type_synonym reader = "(exn + dataframe) list"

definition write_chunk :: "outfile \<Rightarrow> dataframe \<Rightarrow> bool \<Rightarrow> outfile \<times> bool" where
  "write_chunk out df wrote_header = (out @ [(\<not> wrote_header, df)], True)"

text \<open>
  The float64 arithmetic of numpy that the scorer uses, as parameters: negation,
  \<open>np.exp\<close>, addition and division, each with its rounding, overflow and NaN rules.
  \<open>sigmoid\<close> is \<open>1 / (1 + np.exp(-x))\<close> on one score.
\<close>

record numpy =
  np_negative :: "pyfloat \<Rightarrow> pyfloat"
  np_exp :: "pyfloat \<Rightarrow> pyfloat"
  np_add :: "pyfloat \<Rightarrow> pyfloat \<Rightarrow> pyfloat"
  np_divide :: "pyfloat \<Rightarrow> pyfloat \<Rightarrow> pyfloat"

definition sigmoid :: "numpy \<Rightarrow> pyfloat \<Rightarrow> pyfloat" where
  "sigmoid np x = np_divide np (Finite 1) (np_add np (Finite 1) (np_exp np (np_negative np x)))"

text \<open>
  The body of the loop of \<open>main\<close> from the second statement on: scoring one chunk on
  its text column \<open>tcol\<close>.  \<open>threshold\<close> is the option \<open>--threshold\<close>.
\<close>

definition main_chunk ::
    "'x model_bundle \<Rightarrow> pandas \<Rightarrow> numpy \<Rightarrow> pyfloat option \<Rightarrow> string \<Rightarrow> dataframe
       \<Rightarrow> exn + dataframe" where
  "main_chunk b pd np cli_threshold tcol chunk =
     (case df_getitem chunk tcol of
        Inl e \<Rightarrow> Inl e
      | Inr text_cells \<Rightarrow>
          (let clf = model b;
               texts = map (astype_str pd) text_cells
           in case vectorizer_transform b texts of
                None \<Rightarrow> Inl TransformError
              | Some X \<Rightarrow>
          (let pred = model_predict clf X;
               proba_spam =
                 (case predict_proba clf of
                    Some pp \<Rightarrow>
                      (let proba = pp X;
                           spam_idx = np_where (map (\<lambda>c. c = ''spam'') (classes clf));
                           spam_idx = (case spam_idx of
                                         i # _ \<Rightarrow> i
                                       | [] \<Rightarrow> if shape1 proba = 2 then 1 else 0)
                       in column proba spam_idx)
                  | None \<Rightarrow>
                      (case decision_function clf of
                         Some dfn \<Rightarrow>
                           (case dfn X of
                              D1 scores \<Rightarrow> Inr (map (sigmoid np) scores)
                            | D2 a \<Rightarrow>
                                (case last_column a of
                                   Inl e \<Rightarrow> Inl e
                                 | Inr scores \<Rightarrow> Inr (map (sigmoid np) scores)))
                       | None \<Rightarrow> Inr (replicate (length texts) NaN)))
           in case proba_spam of
                Inl e \<Rightarrow> Inl e
              | Inr spam_col \<Rightarrow>
                  (case df_setitem chunk ''pred'' (map (\<lambda>l. Str (ustr_of l)) pred) of
                     Inl e \<Rightarrow> Inl e
                   | Inr out_chunk \<Rightarrow>
                       (case df_setitem out_chunk ''proba_spam'' (map Num spam_col) of
                          Inl e \<Rightarrow> Inl e
                        | Inr out_chunk \<Rightarrow>
                            (case cli_threshold of
                               None \<Rightarrow> Inr out_chunk
                             | Some thr \<Rightarrow>
                                 df_setitem out_chunk ''pred_thresholded''
                                   (map (\<lambda>p. Str (ustr_of (if float_ge p thr then ''spam''
                                                              else ''ham'')))
                                      spam_col)))))))"

text \<open>
  The loop \<open>for i, chunk in enumerate(reader)\<close>: a step of the reader that raises ends
  the run; the text column is detected on the first chunk and kept.  The result is the
  output file and the exception that ended the run, if any; the chunks written before an
  exception stay in the file.
\<close>

fun main_loop ::
    "'x model_bundle \<Rightarrow> pandas \<Rightarrow> numpy \<Rightarrow> (cell list \<Rightarrow> bool) \<Rightarrow> string option
       \<Rightarrow> pyfloat option \<Rightarrow> nat \<Rightarrow> string \<Rightarrow> bool \<Rightarrow> outfile \<Rightarrow> reader
       \<Rightarrow> outfile \<times> exn option" where
  "main_loop b pd np isd text_col cli_threshold i tcol wrote_header out [] = (out, None)"
| "main_loop b pd np isd text_col cli_threshold i tcol wrote_header out (step # rest) =
     (case step of
        Inl e \<Rightarrow> (out, Some e)
      | Inr chunk \<Rightarrow>
          (case (if i = 0 then detect_text_col isd chunk text_col else Inr tcol) of
             Inl e \<Rightarrow> (out, Some e)
           | Inr tcol \<Rightarrow>
               (case main_chunk b pd np cli_threshold tcol chunk of
                  Inl e \<Rightarrow> (out, Some e)
                | Inr out_chunk \<Rightarrow>
                    (case write_chunk out out_chunk wrote_header of
                       (out, wrote_header) \<Rightarrow>
                         main_loop b pd np isd text_col cli_threshold (Suc i) tcol wrote_header
                           out rest))))"

text \<open>
  \<open>main\<close>: \<open>obj\<close> is the loaded bundle, \<open>None\<close> when it is not a dictionary with a
  vectorizer and a model.  The output file is truncated before the input is opened.
\<close>

definition main ::
    "'x model_bundle option \<Rightarrow> pandas \<Rightarrow> numpy \<Rightarrow> (cell list \<Rightarrow> bool)
       \<Rightarrow> (string \<Rightarrow> exn + reader) \<Rightarrow> string option \<Rightarrow> pyfloat option
       \<Rightarrow> outfile \<times> exn option" where
  "main obj pd np isd rd text_col cli_threshold =
     (case obj of
        None \<Rightarrow> ([], Some ValueError)
      | Some b \<Rightarrow>
          (case iter_csv rd of
             Inl e \<Rightarrow> ([], Some e)
           | Inr reader \<Rightarrow> main_loop b pd np isd text_col cli_threshold 0 [] False [] reader))"

section \<open>Specification-side definitions\<close>

text \<open>
  The spam column as the specification words it: the index of a class named \<open>spam\<close>
  if there is one, else the second column of a two-column matrix, else the first.
\<close>

fun first_index :: "'a \<Rightarrow> 'a list \<Rightarrow> nat option" where
  "first_index x [] = None"
| "first_index x (y # ys) = (if y = x then Some 0 else map_option Suc (first_index x ys))"

definition spam_column_spec :: "string list \<Rightarrow> nat \<Rightarrow> nat" where
  "spam_column_spec class_names ncols =
     (case first_index ''spam'' class_names of
        Some i \<Rightarrow> i
      | None \<Rightarrow> if ncols = 2 then 1 else 0)"

text \<open>The labelling rule of the specification.\<close>

definition spam_label :: "pyfloat \<Rightarrow> pyfloat \<Rightarrow> string" where
  "spam_label p thr = (if float_ge p thr then ''spam'' else ''ham'')"

text \<open>
  What the pipeline requires of the classifier on a feature matrix \<open>X\<close> of \<open>n\<close>
  samples (the interface of a scikit-learn classifier): one row of probabilities per
  sample and one column per class, of which there is at least one; without probability
  output, one predicted label per sample.
\<close>

definition classifier_contract :: "'x classifier \<Rightarrow> 'x \<Rightarrow> nat \<Rightarrow> bool" where
  "classifier_contract clf X n =
     (case predict_proba clf of
        Some pp \<Rightarrow> shape0 (pp X) = n \<and> shape1 (pp X) = length (classes clf) \<and> 0 < shape1 (pp X)
      | None \<Rightarrow> length (model_predict clf X) = n)"

text \<open>
  The non-blank lines of an uploaded text, in order, and the labels of the \<open>n\<close> rows
  of a feature matrix \<open>X\<close> in order: by threshold on the spam column when the
  classifier has probability output, the predicted classes otherwise.
\<close>

definition nonblank_lines :: "ustr \<Rightarrow> ustr list" where
  "nonblank_lines s = filter (\<lambda>ln. strip ln \<noteq> []) (splitlines s)"

definition row_labels :: "'x classifier \<Rightarrow> pyfloat \<Rightarrow> 'x \<Rightarrow> nat \<Rightarrow> string list" where
  "row_labels clf thr X n =
     (case predict_proba clf of
        Some pp \<Rightarrow>
          map (\<lambda>i. spam_label (item (pp X) i (spam_column_spec (classes clf) (shape1 (pp X)))) thr)
              [0..<n]
      | None \<Rightarrow> model_predict clf X)"

text \<open>
  The spam probabilities of a probability matrix as the specification picks them: the
  entries of the spam column, row by row.
\<close>

definition spec_spam_probs :: "'x classifier \<Rightarrow> ndarray \<Rightarrow> pyfloat list" where
  "spec_spam_probs clf P =
     map (\<lambda>i. item P i (spam_column_spec (classes clf) (shape1 P))) [0..<shape0 P]"

text \<open>
  The value \<open>proba_spam\<close> of \<open>main_chunk\<close>, set apart for the proofs: what the
  scorer computes for the \<open>n\<close> rows of a feature matrix \<open>X\<close>.
\<close>

definition cli_proba_spam :: "numpy \<Rightarrow> 'x classifier \<Rightarrow> 'x \<Rightarrow> nat \<Rightarrow> exn + pyfloat list" where
  "cli_proba_spam np clf X n =
     (case predict_proba clf of
        Some pp \<Rightarrow> column (pp X) (spam_column_spec (classes clf) (shape1 (pp X)))
      | None \<Rightarrow>
          (case decision_function clf of
             Some dfn \<Rightarrow>
               (case dfn X of
                  D1 scores \<Rightarrow> Inr (map (sigmoid np) scores)
                | D2 a \<Rightarrow> map_sum id (map (sigmoid np)) (last_column a))
           | None \<Rightarrow> Inr (replicate n NaN)))"

text \<open>
  Scoring row by row: the vectorizer accepts the batch and each of its texts alone, and
  the row a text gets in the batch is the row it gets alone.
\<close>

definition rowwise :: "'x model_bundle \<Rightarrow> ustr list \<Rightarrow> bool" where
  "rowwise b txts =
     (case vectorizer_transform b txts of
        None \<Rightarrow> False
      | Some X \<Rightarrow>
          list_all
            (\<lambda>i. case vectorizer_transform b [txts ! i] of
                    None \<Rightarrow> False
                  | Some Xi \<Rightarrow>
                      (case predict_proba (model b) of
                         Some pp \<Rightarrow>
                           shape0 (pp Xi) = 1 \<and> shape1 (pp Xi) = shape1 (pp X)
                           \<and> list_all (\<lambda>j. item (pp Xi) 0 j = item (pp X) i j)
                                 [0..<shape1 (pp X)]
                       | None \<Rightarrow>
                           model_predict (model b) Xi = [model_predict (model b) X ! i]))
            [0..<length txts])"

text \<open>
  Small bundles to run the pipeline on: the vectorizer is the identity, a text of more
  than five characters is spam with probability 0.9 and any other with 0.1.  The second
  bundle has no probability output, the third has only \<open>decision_function\<close> (the
  score 0 for every text), and the vectorizer of the fourth raises on an empty list of
  texts, as \<open>TfidfVectorizer\<close> does.
\<close>

definition toy_text_score :: "ustr \<Rightarrow> pyfloat" where
  "toy_text_score t = Finite (if 5 < length t then 9/10 else 1/10)"

definition toy_proba_bundle :: "ustr list model_bundle" where
  "toy_proba_bundle =
     \<lparr>vectorizer_transform = (\<lambda>ts. Some ts),
      model = \<lparr>classes = [''ham'', ''spam''],
               model_predict = map (\<lambda>t. if 5 < length t then ''spam'' else ''ham''),
               predict_proba =
                 Some (\<lambda>X. \<lparr>shape0 = length X, shape1 = 2,
                             item = (\<lambda>i j. if j = 1 then toy_text_score (X ! i)
                                             else Finite (1/2))\<rparr>),
               decision_function = None\<rparr>\<rparr>"

definition toy_label_bundle :: "ustr list model_bundle" where
  "toy_label_bundle =
     \<lparr>vectorizer_transform = (\<lambda>ts. Some ts),
      model = \<lparr>classes = [''ham'', ''spam''],
               model_predict = map (\<lambda>t. if 5 < length t then ''spam'' else ''ham''),
               predict_proba = None,
               decision_function = None\<rparr>\<rparr>"

definition toy_decision_bundle :: "ustr list model_bundle" where
  "toy_decision_bundle =
     \<lparr>vectorizer_transform = (\<lambda>ts. Some ts),
      model = \<lparr>classes = [''ham'', ''spam''],
               model_predict = map (\<lambda>t. if 5 < length t then ''spam'' else ''ham''),
               predict_proba = None,
               decision_function = Some (\<lambda>X. D1 (map (\<lambda>t. Finite 0) X))\<rparr>\<rparr>"


text \<open>
  Float arithmetic that is exact on finite values and NaN elsewhere, to run the sigmoid
  on: at the score 0 it agrees with float64, where \<open>exp(-0) = 1\<close>, \<open>1 + 1 = 2\<close> and
  \<open>1 / 2 = 0.5\<close> are exact.
\<close>

definition exact_numpy :: numpy where
  "exact_numpy =
     \<lparr>np_negative = (\<lambda>x. case x of Finite r \<Rightarrow> Finite (- r) | _ \<Rightarrow> NaN),
      np_exp = (\<lambda>x. case x of Finite r \<Rightarrow> Finite (exp r) | _ \<Rightarrow> NaN),
      np_add = (\<lambda>x y. case x of
                  Finite a \<Rightarrow> (case y of Finite c \<Rightarrow> Finite (a + c) | _ \<Rightarrow> NaN)
                | _ \<Rightarrow> NaN),
      np_divide = (\<lambda>x y. case x of
                     Finite a \<Rightarrow> (case y of Finite c \<Rightarrow> if c = 0 then NaN else Finite (a / c)
                                   | _ \<Rightarrow> NaN)
                   | _ \<Rightarrow> NaN)\<rparr>"

definition msg_win :: ustr where "msg_win = map of_char '' WIN a prize ''"
definition msg_hi :: ustr where "msg_hi = map of_char ''hi''"

text \<open>
  A pandas whose readers always raise, so that a \<open>.csv\<close> is taken line by line, and
  one whose \<open>read_csv\<close> parses any text to a fixed table of two rows.
\<close>

definition toy_pandas :: pandas where
  "toy_pandas = \<lparr>read_csv = (\<lambda>s. None), read_excel = (\<lambda>c. None), str_of_float = (\<lambda>f. [])\<rparr>"

definition toy_table :: dataframe where
  "toy_table =
     \<lparr>nrows = 2,
      cols = [(''id'', [Num (Finite 1), Num (Finite 2)]),
              (''text'', [Str (ustr_of ''WIN a prize''), Str (ustr_of ''hi'')])]\<rparr>"


text \<open>
  The bytes of a text file with the lines \<open>WIN a prize\<close>, an empty line and \<open> hi \<close>,
  and of one with two blank lines.
\<close>

definition upload_two_lines :: "8 word list" where
  "upload_two_lines =
     [0x57, 0x49, 0x4E, 0x20, 0x61, 0x20, 0x70, 0x72, 0x69, 0x7A, 0x65, 0x0A,
      0x0A, 0x20, 0x68, 0x69, 0x20, 0x0A]"

definition two_lines_text :: ustr where
  "two_lines_text = ustr_of ''WIN a prize'' @ [10, 10] @ ustr_of '' hi '' @ [10]"


text \<open>
  The probability function of \<open>toy_proba_bundle\<close>, a test for string columns, and the
  chunks the command-line scorer writes for \<open>toy_table\<close> with the threshold 0.5: with
  \<open>toy_label_bundle\<close>, with \<open>toy_decision_bundle\<close> and with \<open>toy_proba_bundle\<close>.
\<close>

definition toy_predict_proba :: "ustr list \<Rightarrow> ndarray" where
  "toy_predict_proba X =
     \<lparr>shape0 = length X, shape1 = 2,
      item = (\<lambda>i j. if j = 1 then toy_text_score (X ! i) else Finite (1/2))\<rparr>"

definition toy_is_string_dtype :: "cell list \<Rightarrow> bool" where
  "toy_is_string_dtype v = (case v of Str s # rest \<Rightarrow> True | _ \<Rightarrow> False)"

definition toy_scored_table :: dataframe where
  "toy_scored_table =
     \<lparr>nrows = 2,
      cols = [(''id'', [Num (Finite 1), Num (Finite 2)]),
              (''text'', [Str (ustr_of ''WIN a prize''), Str (ustr_of ''hi'')]),
              (''pred'', [Str (ustr_of ''spam''), Str (ustr_of ''ham'')]),
              (''proba_spam'', [Num NaN, Num NaN]),
              (''pred_thresholded'', [Str (ustr_of ''ham''), Str (ustr_of ''ham'')])]\<rparr>"

definition toy_scored_sigmoid :: dataframe where
  "toy_scored_sigmoid =
     \<lparr>nrows = 2,
      cols = [(''id'', [Num (Finite 1), Num (Finite 2)]),
              (''text'', [Str (ustr_of ''WIN a prize''), Str (ustr_of ''hi'')]),
              (''pred'', [Str (ustr_of ''spam''), Str (ustr_of ''ham'')]),
              (''proba_spam'', [Num (Finite (1/2)), Num (Finite (1/2))]),
              (''pred_thresholded'', [Str (ustr_of ''spam''), Str (ustr_of ''spam'')])]\<rparr>"

definition toy_scored_proba :: dataframe where
  "toy_scored_proba =
     \<lparr>nrows = 2,
      cols = [(''id'', [Num (Finite 1), Num (Finite 2)]),
              (''text'', [Str (ustr_of ''WIN a prize''), Str (ustr_of ''hi'')]),
              (''pred'', [Str (ustr_of ''spam''), Str (ustr_of ''ham'')]),
              (''proba_spam'', [Num (Finite (9/10)), Num (Finite (1/10))]),
              (''pred_thresholded'', [Str (ustr_of ''spam''), Str (ustr_of ''ham'')])]\<rparr>"

text \<open>
  An input file of the command-line scorer that only latin-1 opens, read as one chunk,
  and one that opens as UTF-8 and yields a chunk before a later byte fails to decode.
\<close>

definition toy_reader :: "string \<Rightarrow> exn + reader" where
  "toy_reader enc =
     (if enc = ''latin-1'' \<or> enc = ''ISO-8859-1'' then Inr [Inr toy_table]
      else Inl UnicodeDecodeError)"

definition toy_reader_late_error :: "string \<Rightarrow> exn + reader" where
  "toy_reader_late_error enc = Inr [Inr toy_table, Inl UnicodeDecodeError, Inr toy_table]"

section \<open>Threshold resolution: properties\<close>

lemma default_in_catalog: "PROFILE_THRESHOLDS ''default'' = Some (Finite (55/100))"
  by (simp add: PROFILE_THRESHOLDS_def PROFILE_DEFINITIONS_def)

lemma bank_in_catalog: "PROFILE_THRESHOLDS ''bank'' = Some (Finite (65/100))"
  by (simp add: PROFILE_THRESHOLDS_def PROFILE_DEFINITIONS_def)

lemma lower_bank: "lower ''bank'' = ''bank''"
  by (simp add: lower_def lower_char_def)

lemma lower_BANK: "lower ''BANK'' = ''bank''"
  by code_simp

lemma float_decimal_0_9: "float_decimal ''0.9'' = Some (Finite (9/10))"
  by (simp add: float_decimal_def digit_val_def)

lemma compute_spam_threshold_override:
  "to_float s = Some v \<Longrightarrow> compute_spam_threshold to_float (Some s) sp = v"
  by (simp add: compute_spam_threshold_def)

lemma resolve_threshold_known:
  "p \<noteq> [] \<Longrightarrow> PROFILE_THRESHOLDS (dict_get PROFILE_ALIASES (lower p) (lower p)) = Some t
     \<Longrightarrow> resolve_threshold d (Some p) = t"
  by (simp add: resolve_threshold_def Let_def)

lemma resolve_threshold_unknown:
  "PROFILE_THRESHOLDS (dict_get PROFILE_ALIASES (lower p) (lower p)) = None
     \<Longrightarrow> resolve_threshold d (Some p) = d"
  by (simp add: resolve_threshold_def Let_def)

lemma resolve_threshold_absent:
  "resolve_threshold d None = d" "resolve_threshold d (Some []) = d"
  by (simp_all add: resolve_threshold_def)

lemma canonical_nosuch:
  "PROFILE_THRESHOLDS (dict_get PROFILE_ALIASES (lower ''nosuch'') (lower ''nosuch'')) = None"
  by code_simp

lemma canonical_BANK:
  "PROFILE_THRESHOLDS (dict_get PROFILE_ALIASES (lower ''BANK'') (lower ''BANK''))
     = Some (Finite (65/100))"
  by (simp add: lower_BANK dict_get_def PROFILE_ALIASES_def bank_in_catalog)

lemma canonical_financial:
  "PROFILE_THRESHOLDS (dict_get PROFILE_ALIASES (lower ''financial'') (lower ''financial''))
     = Some (Finite (65/100))"
proof -
  have "lower ''financial'' = ''financial''" by code_simp
  then show ?thesis
    by (simp add: dict_get_def PROFILE_ALIASES_def bank_in_catalog)
qed

text \<open>
  C1 (as stated: with a valid global override, resolution returns the override whatever
  profile is requested).  The code does otherwise: with \<open>SPAM_THRESHOLD=0.9\<close> in the
  environment, a request for profile \<open>bank\<close> is resolved to the profile's 0.65.
\<close>

theorem override_bypassed_by_profile_counterexample:
  "compute_spam_threshold float_decimal (Some ''0.9'') (SYSTEM_PROFILE None) = Finite (9/10)
   \<and> resolve_threshold
        (compute_spam_threshold float_decimal (Some ''0.9'') (SYSTEM_PROFILE None))
        (Some ''bank'') = Finite (65/100)
   \<and> resolve_threshold
        (compute_spam_threshold float_decimal (Some ''0.9'') (SYSTEM_PROFILE None))
        (Some ''bank'')
      \<noteq> compute_spam_threshold float_decimal (Some ''0.9'') (SYSTEM_PROFILE None)"
proof -
  have c: "compute_spam_threshold float_decimal (Some ''0.9'') (SYSTEM_PROFILE None)
             = Finite (9/10)"
    using float_decimal_0_9
    by (rule compute_spam_threshold_override [of float_decimal "''0.9''"])
  have "PROFILE_THRESHOLDS (dict_get PROFILE_ALIASES (lower ''bank'') (lower ''bank''))
          = Some (Finite (65/100))"
    by (simp add: lower_bank dict_get_def PROFILE_ALIASES_def bank_in_catalog)
  then have r: "resolve_threshold (Finite (9/10)) (Some ''bank'') = Finite (65/100)"
    by (intro resolve_threshold_known) simp_all
  show ?thesis
    by (simp add: c r)
qed

text \<open>
  C1 (amended).  With a valid global override \<open>v\<close> configured at process start, threshold
  resolution returns \<open>v\<close> when no profile is requested, when the requested key is empty,
  and when the key (lowercased, aliases applied) is not in the catalog; a requested key
  that resolves to a catalog profile returns that profile's threshold, not the override.
\<close>

theorem override_applies_unless_profile_known:
  assumes "to_float s = Some v"
  shows "resolve_threshold (compute_spam_threshold to_float (Some s) sp) None = v
       \<and> resolve_threshold (compute_spam_threshold to_float (Some s) sp) (Some []) = v
       \<and> (PROFILE_THRESHOLDS (dict_get PROFILE_ALIASES (lower p) (lower p)) = None
            \<longrightarrow> resolve_threshold (compute_spam_threshold to_float (Some s) sp) (Some p) = v)
       \<and> (q \<noteq> [] \<and> PROFILE_THRESHOLDS (dict_get PROFILE_ALIASES (lower q) (lower q)) = Some t
            \<longrightarrow> resolve_threshold (compute_spam_threshold to_float (Some s) sp) (Some q) = t)"
  using assms
  by (simp add: compute_spam_threshold_override resolve_threshold_absent
      resolve_threshold_unknown resolve_threshold_known)

theorem override_applies_unless_profile_known_witness:
  "float_decimal ''0.9'' = Some (Finite (9/10))
   \<and> resolve_threshold (compute_spam_threshold float_decimal (Some ''0.9'') ''default'') None
       = Finite (9/10)
   \<and> resolve_threshold (compute_spam_threshold float_decimal (Some ''0.9'') ''default'')
       (Some ''nosuch'') = Finite (9/10)
   \<and> resolve_threshold (compute_spam_threshold float_decimal (Some ''0.9'') ''default'')
       (Some ''BANK'') = Finite (65/100)"
  using override_applies_unless_profile_known
          [of float_decimal "''0.9''" "Finite (9/10)" "''default''" "''nosuch''" "''BANK''"
              "Finite (65/100)"]
        canonical_nosuch canonical_BANK float_decimal_0_9
  by simp

text \<open>
  C8.  A requested key that, lowercased and with aliases applied, is not a key of the
  profile catalog resolves to the process-wide default \<open>SPAM_THRESHOLD\<close>, as does an
  absent key.  \<open>resolve_threshold\<close> has no failing branch: dictionary access is by
  \<open>get\<close> and by a guarded lookup, so the function returns a threshold on every input.
\<close>

theorem unknown_profile_falls_back_to_default:
  "resolve_threshold SPAM_THRESHOLD None = SPAM_THRESHOLD
   \<and> (PROFILE_THRESHOLDS (dict_get PROFILE_ALIASES (lower p) (lower p)) = None
        \<longrightarrow> resolve_threshold SPAM_THRESHOLD (Some p) = SPAM_THRESHOLD)"
  by (simp add: resolve_threshold_absent resolve_threshold_unknown)

theorem unknown_profile_falls_back_to_default_witness:
  "PROFILE_THRESHOLDS (dict_get PROFILE_ALIASES (lower ''nosuch'') (lower ''nosuch'')) = None
   \<and> resolve_threshold (Finite (55/100)) (Some ''nosuch'') = Finite (55/100)
   \<and> resolve_threshold (Finite (55/100)) None = Finite (55/100)"
  using unknown_profile_falls_back_to_default [of "Finite (55/100)" "''nosuch''"]
        canonical_nosuch
  by simp

section \<open>Scoring: properties\<close>

lemma nonzero_Nil: "nonzero [] = []"
  by (simp add: nonzero_def)

lemma nonzero_Cons: "nonzero (b # bs) = (if b then [0] else []) @ map Suc (nonzero bs)"
proof -
  have "[0..<length (b # bs)] = 0 # map Suc [0..<length bs]"
    by (simp add: upt_conv_Cons map_Suc_upt del: upt_Suc)
  then show ?thesis
    by (simp add: nonzero_def filter_map comp_def del: upt_Suc)
qed

lemma nonzero_first_index:
  "(case nonzero (map (\<lambda>c. c = x) cs) of i # _ \<Rightarrow> i | [] \<Rightarrow> d)
     = (case first_index x cs of Some i \<Rightarrow> i | None \<Rightarrow> d)"
proof -
  have "nonzero (map (\<lambda>c. c = x) cs) = [] \<longleftrightarrow> first_index x cs = None"
    by (induction cs) (simp_all add: nonzero_Nil nonzero_Cons)
  moreover have "first_index x cs = Some i \<Longrightarrow> \<exists>r. nonzero (map (\<lambda>c. c = x) cs) = i # r" for i
    by (induction cs arbitrary: i) (auto simp: nonzero_Nil nonzero_Cons split: if_splits)
  ultimately show ?thesis
    by (cases "first_index x cs") (auto split: list.splits)
qed

lemma first_index_less: "first_index x cs = Some i \<Longrightarrow> i < length cs"
  by (induction cs arbitrary: i) (auto split: if_splits)

lemma batch_loop_fills:
  "length preds = length probs \<Longrightarrow> i + length ps \<le> length probs \<Longrightarrow>
   batch_loop thr i ps (preds, probs)
     = Inr (take i preds @ map (\<lambda>p. if float_ge p thr then ''spam'' else ''ham'') ps
              @ drop (i + length ps) preds,
            take i probs @ map Some ps @ drop (i + length ps) probs)"
proof (induction ps arbitrary: i preds probs)
  case Nil
  then show ?case by simp
next
  case (Cons p ps)
  from Cons.prems have i: "i < length probs" "i < length preds" by simp_all
  have "batch_loop thr (Suc i) ps
          (preds[i := (if float_ge p thr then ''spam'' else ''ham'')], probs[i := Some p])
        = Inr (take (Suc i) (preds[i := (if float_ge p thr then ''spam'' else ''ham'')])
                 @ map (\<lambda>p. if float_ge p thr then ''spam'' else ''ham'') ps
                 @ drop (Suc i + length ps) (preds[i := (if float_ge p thr then ''spam'' else ''ham'')]),
               take (Suc i) (probs[i := Some p]) @ map Some ps
                 @ drop (Suc i + length ps) (probs[i := Some p]))"
    using Cons.prems by (intro Cons.IH) simp_all
  with i show ?case
    by (simp add: take_Suc_conv_app_nth)
qed

lemma spam_column_spec_less:
  "0 < nc \<Longrightarrow> nc = length cs \<Longrightarrow> spam_column_spec cs nc < nc"
  by (auto simp: spam_column_spec_def split: option.splits dest: first_index_less)

lemma predict_with_proba:
  assumes "strip t \<noteq> []" and "predict_proba (model b) = Some pp"
    and "vectorizer_transform b [strip t] = Some X" and "P = pp X"
    and "j = spam_column_spec (classes (model b)) (shape1 P)"
    and "j < shape1 P" and "0 < shape0 P"
  shows "predict (Some b) T t prof =
           Inr \<lparr>out_text = strip t,
                pred = spam_label (item P 0 j) (resolve_threshold T prof),
                proba_spam = Some (item P 0 j)\<rparr>"
proof -
  have idx: "(case np_where (map (\<lambda>c. c = ''spam'') (classes (model b))) of
                i # _ \<Rightarrow> i | [] \<Rightarrow> if shape1 P = 2 then 1 else 0) = j"
    using assms(5) by (simp add: np_where_def nonzero_first_index spam_column_spec_def)
  from assms(7) obtain m where m: "shape0 P = Suc m" by (cases "shape0 P") auto
  have col: "column P j = Inr (item P 0 j # map (\<lambda>i. item P i j) [1..<Suc m])"
    using assms(6) m by (simp add: column_def upt_conv_Cons del: upt_Suc)
  show ?thesis
    using assms(1,2,3) idx col
    by (simp add: predict_def Let_def assms(4)[symmetric] spam_label_def)
qed

lemma predict_label_only:
  assumes "strip t \<noteq> []" and "predict_proba (model b) = None"
    and "vectorizer_transform b [strip t] = Some X"
    and "model_predict (model b) X = raw # rest"
  shows "predict (Some b) T t prof =
           Inr \<lparr>out_text = strip t, pred = raw, proba_spam = None\<rparr>"
  using assms by (simp add: predict_def Let_def)

lemma predict_label_only_threshold_free:
  assumes "predict_proba (model b) = None"
  shows "predict (Some b) T t prof = predict (Some b) T' t prof'"
  using assms by (simp add: predict_def Let_def split: option.splits)

lemma batch_with_proba:
  assumes "ts \<noteq> []" and "int (length ts) \<le> MAX_BATCH"
    and "predict_proba (model b) = Some pp"
    and "vectorizer_transform b (map strip ts) = Some X" and "P = pp X"
    and "j = spam_column_spec (classes (model b)) (shape1 P)"
    and "j < shape1 P" and "shape0 P = length ts"
  shows "batch (Some b) MAX_BATCH T ts prof =
           Inr \<lparr>batch_size = length ts,
                items = map (\<lambda>i. \<lparr>out_text = strip (ts ! i),
                                   pred = spam_label (item P i j) (resolve_threshold T prof),
                                   proba_spam = Some (item P i j)\<rparr>) [0..<length ts]\<rparr>"
proof -
  let ?thr = "resolve_threshold T prof"
  let ?col = "map (\<lambda>i. item P i j) [0..<length ts]"
  have idx: "(case nonzero (map (\<lambda>c. c = ''spam'') (classes (model b))) of
                i # _ \<Rightarrow> i | [] \<Rightarrow> if shape1 P = 2 then 1 else 0) = j"
    using assms(6) by (simp add: nonzero_first_index spam_column_spec_def)
  have col: "column P j = Inr ?col"
    using assms(7,8) by (simp add: column_def)
  have loop: "batch_loop ?thr 0 ?col (replicate (length ts) ''ham'', replicate (length ts) None)
                = Inr (map (\<lambda>p. if float_ge p ?thr then ''spam'' else ''ham'') ?col, map Some ?col)"
    by (subst batch_loop_fills) simp_all
  have its: "map (\<lambda>(t, pred_label, pr). \<lparr>out_text = t, pred = pred_label, proba_spam = pr\<rparr>)
               (zip (map strip ts)
                  (zip (map (\<lambda>p. if float_ge p ?thr then ''spam'' else ''ham'') ?col) (map Some ?col)))
             = map (\<lambda>i. \<lparr>out_text = strip (ts ! i), pred = spam_label (item P i j) ?thr,
                            proba_spam = Some (item P i j)\<rparr>) [0..<length ts]"
    by (rule nth_equalityI) (simp_all add: spam_label_def)
  show ?thesis
    using assms(1,2,3,4) idx col loop its
    by (simp add: batch_def Let_def assms(5)[symmetric] del: upt_Suc)
qed

lemma batch_label_only:
  assumes "ts \<noteq> []" and "int (length ts) \<le> MAX_BATCH"
    and "predict_proba (model b) = None"
    and "vectorizer_transform b (map strip ts) = Some X"
    and "raw = model_predict (model b) X"
  shows "batch (Some b) MAX_BATCH T ts prof =
           Inr \<lparr>batch_size = min (length ts) (length raw),
                items = map (\<lambda>(t, r). \<lparr>out_text = t, pred = r, proba_spam = None\<rparr>)
                            (zip (map strip ts) raw)\<rparr>"
proof -
  have "map (\<lambda>(t, pred_label, pr). \<lparr>out_text = t, pred = pred_label, proba_spam = pr\<rparr>)
               (zip (map strip ts) (zip raw (replicate (length ts) None)))
        = map (\<lambda>(t, r). \<lparr>out_text = t, pred = r, proba_spam = None\<rparr>) (zip (map strip ts) raw)"
    by (rule nth_equalityI) simp_all
  then show ?thesis
    using assms(1,2,3,4) by (simp add: batch_def Let_def assms(5)[symmetric])
qed

lemma batch_label_only_threshold_free:
  assumes "predict_proba (model b) = None"
  shows "batch (Some b) MAX_BATCH T ts prof = batch (Some b) MAX_BATCH T' ts prof'"
  using assms by (simp add: batch_def Let_def split: option.splits)

lemma batch_scored:
  assumes "ts \<noteq> []" and "int (length ts) \<le> MAX_BATCH"
    and "vectorizer_transform b (map strip ts) = Some X"
    and "classifier_contract (model b) X (length ts)"
  shows "batch (Some b) MAX_BATCH T ts prof =
           Inr \<lparr>batch_size = length ts,
                items = map (\<lambda>i. \<lparr>out_text = strip (ts ! i),
                                   pred = row_labels (model b) (resolve_threshold T prof) X
                                            (length ts) ! i,
                                   proba_spam =
                                     (case predict_proba (model b) of
                                        Some pp \<Rightarrow> Some (spec_spam_probs (model b) (pp X) ! i)
                                      | None \<Rightarrow> None)\<rparr>)
                          [0..<length ts]\<rparr>"
proof (cases "predict_proba (model b)")
  case None
  with assms(4) have len: "length (model_predict (model b) X) = length ts"
    by (simp add: classifier_contract_def)
  have "map (\<lambda>(t, r). \<lparr>out_text = t, pred = r, proba_spam = None\<rparr>)
          (zip (map strip ts) (model_predict (model b) X))
        = map (\<lambda>i. \<lparr>out_text = strip (ts ! i), pred = model_predict (model b) X ! i,
                     proba_spam = None\<rparr>) [0..<length ts]"
    using len by (intro nth_equalityI) simp_all
  then show ?thesis
    using batch_label_only [OF assms(1,2) None assms(3) refl, of T prof] len None
    by (simp add: row_labels_def)
next
  case (Some pp)
  let ?P = "pp X"
  from assms(4) Some have sh: "shape0 ?P = length ts" "shape1 ?P = length (classes (model b))"
    "0 < shape1 ?P"
    by (auto simp: classifier_contract_def)
  then have j: "spam_column_spec (classes (model b)) (shape1 ?P) < shape1 ?P"
    by (intro spam_column_spec_less) simp_all
  have "map (\<lambda>i. \<lparr>out_text = strip (ts ! i),
              pred = spam_label (item ?P i (spam_column_spec (classes (model b)) (shape1 ?P)))
                       (resolve_threshold T prof),
              proba_spam = Some (item ?P i (spam_column_spec (classes (model b)) (shape1 ?P)))\<rparr>)
          [0..<length ts]
        = map (\<lambda>i. \<lparr>out_text = strip (ts ! i),
                     pred = row_labels (model b) (resolve_threshold T prof) X (length ts) ! i,
                     proba_spam = Some (spec_spam_probs (model b) ?P ! i)\<rparr>) [0..<length ts]"
    using sh(1) by (intro nth_equalityI) (simp_all add: row_labels_def Some spec_spam_probs_def)
  then show ?thesis
    by (simp only: batch_with_proba [OF assms(1,2) Some assms(3) refl refl j sh(1), of T prof]
          Some option.case)
qed

lemma strip_msg_win: "strip msg_win = map of_char ''WIN a prize''"
  by (simp add: msg_win_def strip_def isspace_def)
lemma strip_msg_hi: "strip msg_hi = map of_char ''hi''"
  by (simp add: msg_hi_def strip_def isspace_def)

lemma batch_status:
  assumes "ts \<noteq> []" and "int (length ts) \<le> MAX_BATCH"
  shows "status_code (batch (Some b) MAX_BATCH T ts prof) = 200
       \<or> status_code (batch (Some b) MAX_BATCH T ts prof) = 500"
proof -
  have loop: "batch_loop thr i ps acc = Inl e \<Longrightarrow> e = IndexError" for thr i ps acc e
    by (induction thr i ps acc rule: batch_loop.induct) (auto split: if_splits)
  have col: "column P j = Inl e \<Longrightarrow> e = IndexError" for P j e
    by (auto simp: column_def split: if_splits)
  show ?thesis
    using assms
    by (auto simp: batch_def Let_def split: option.splits sum.splits dest!: loop col)
qed

lemma toy_proba_transform: "vectorizer_transform toy_proba_bundle txts = Some txts"
  by (simp add: toy_proba_bundle_def)

lemma toy_proba_contract:
  "classifier_contract (model toy_proba_bundle) txts (length txts)"
  by (simp add: classifier_contract_def toy_proba_bundle_def)

lemma toy_label_transform: "vectorizer_transform toy_label_bundle txts = Some txts"
  by (simp add: toy_label_bundle_def)

lemma toy_label_contract:
  "classifier_contract (model toy_label_bundle) txts (length txts)"
  by (simp add: classifier_contract_def toy_label_bundle_def)

lemma msg_win_long: "5 < length (strip msg_win)"
  by (simp add: strip_msg_win)

lemma msg_hi_short: "\<not> 5 < length (strip msg_hi)"
  by (simp add: strip_msg_hi)

lemma strip_msg_win_ne: "strip msg_win \<noteq> []"
  by (simp add: strip_msg_win)

lemma strip_msg_hi_ne: "strip msg_hi \<noteq> []"
  by (simp add: strip_msg_hi)

lemma spam_column_toy: "spam_column_spec [''ham'', ''spam''] n = 1"
  by (simp add: spam_column_spec_def)

lemma toy_proba_rowwise: "rowwise toy_proba_bundle txts"
  by (simp add: rowwise_def toy_proba_bundle_def list_all_length)

lemma toy_label_rowwise: "rowwise toy_label_bundle txts"
  by (simp add: rowwise_def toy_label_bundle_def list_all_length)

text \<open>
  C5 (as stated: \<open>batch\<close> answers 413 exactly when the list is longer than
  \<open>MAX_BATCH\<close>).  \<open>MAX_BATCH\<close> is read from the environment as an integer and may
  be negative; the empty list is then longer than the limit, but it is refused first,
  with 422.
\<close>

theorem empty_batch_under_negative_limit_counterexample:
  "status_code (batch (Some toy_proba_bundle) (- 1) (Finite (1/2)) [] None) = 422
   \<and> (- 1 :: int) < int (length ([] :: ustr list))
   \<and> status_code (batch (Some toy_proba_bundle) (- 1) (Finite (1/2)) [] None) \<noteq> 413"
  by (simp add: batch_def)

text \<open>
  C5 (amended).  With the model loaded, \<open>batch\<close> answers 422 exactly for the empty
  list, and 413 exactly for a non-empty list longer than \<open>MAX_BATCH\<close>.  A list of 1 to
  \<open>MAX_BATCH\<close> texts is handed, trimmed, to the vectorizer; if the vectorizer raises,
  the call fails with that error, and otherwise, with a classifier that keeps its
  contract, the answer has one item per text, in order, each with the trimmed text, the
  label of its row and the spam probability of its row.
\<close>

theorem batch_size_limits:
  "(status_code (batch (Some b) MAX_BATCH T ts prof) = 422 \<longleftrightarrow> ts = [])
   \<and> (status_code (batch (Some b) MAX_BATCH T ts prof) = 413
        \<longleftrightarrow> ts \<noteq> [] \<and> MAX_BATCH < int (length ts))
   \<and> (ts \<noteq> [] \<and> int (length ts) \<le> MAX_BATCH
        \<and> vectorizer_transform b (map strip ts) = None
      \<longrightarrow> batch (Some b) MAX_BATCH T ts prof = Inl TransformError)
   \<and> (ts \<noteq> [] \<and> int (length ts) \<le> MAX_BATCH
        \<and> vectorizer_transform b (map strip ts) = Some X
        \<and> classifier_contract (model b) X (length ts)
      \<longrightarrow> batch (Some b) MAX_BATCH T ts prof =
            Inr \<lparr>batch_size = length ts,
                 items = map (\<lambda>i. \<lparr>out_text = strip (ts ! i),
                                    pred = row_labels (model b) (resolve_threshold T prof) X
                                             (length ts) ! i,
                                    proba_spam =
                                      (case predict_proba (model b) of
                                         Some pp \<Rightarrow> Some (spec_spam_probs (model b) (pp X) ! i)
                                       | None \<Rightarrow> None)\<rparr>)
                           [0..<length ts]\<rparr>)"
proof -
  have p1: "status_code (batch (Some b) MAX_BATCH T ts prof) = 422 \<longleftrightarrow> ts = []"
  proof (cases "ts = []")
    case True
    then show ?thesis by (simp add: batch_def)
  next
    case False
    show ?thesis
    proof (cases "int (length ts) \<le> MAX_BATCH")
      case True
      with False batch_status [of ts MAX_BATCH b T prof] show ?thesis by auto
    next
      case False
      with \<open>ts \<noteq> []\<close> show ?thesis by (simp add: batch_def)
    qed
  qed
  have p2: "status_code (batch (Some b) MAX_BATCH T ts prof) = 413
              \<longleftrightarrow> ts \<noteq> [] \<and> MAX_BATCH < int (length ts)"
  proof (cases "ts = []")
    case True
    then show ?thesis by (simp add: batch_def)
  next
    case False
    show ?thesis
    proof (cases "int (length ts) \<le> MAX_BATCH")
      case True
      with False batch_status [of ts MAX_BATCH b T prof] show ?thesis by auto
    next
      case False
      with \<open>ts \<noteq> []\<close> show ?thesis by (simp add: batch_def)
    qed
  qed
  have p3: "ts \<noteq> [] \<and> int (length ts) \<le> MAX_BATCH
        \<and> vectorizer_transform b (map strip ts) = None
      \<longrightarrow> batch (Some b) MAX_BATCH T ts prof = Inl TransformError"
    by (simp add: batch_def Let_def)
  have p4: "ts \<noteq> [] \<and> int (length ts) \<le> MAX_BATCH
        \<and> vectorizer_transform b (map strip ts) = Some X
        \<and> classifier_contract (model b) X (length ts)
      \<longrightarrow> batch (Some b) MAX_BATCH T ts prof =
            Inr \<lparr>batch_size = length ts,
                 items = map (\<lambda>i. \<lparr>out_text = strip (ts ! i),
                                    pred = row_labels (model b) (resolve_threshold T prof) X
                                             (length ts) ! i,
                                    proba_spam =
                                      (case predict_proba (model b) of
                                         Some pp \<Rightarrow> Some (spec_spam_probs (model b) (pp X) ! i)
                                       | None \<Rightarrow> None)\<rparr>)
                           [0..<length ts]\<rparr>"
    using batch_scored [of ts MAX_BATCH b X T prof] by blast
  show ?thesis
    by (intro conjI) (rule p1, rule p2, rule p3, rule p4)
qed

theorem batch_size_limits_witness:
  "vectorizer_transform toy_proba_bundle (map strip [msg_win, msg_hi])
     = Some (map strip [msg_win, msg_hi])
   \<and> classifier_contract (model toy_proba_bundle) (map strip [msg_win, msg_hi])
        (length [msg_win, msg_hi])
   \<and> batch (Some toy_proba_bundle) 2 (Finite (1/2)) [msg_win, msg_hi] None
       = Inr \<lparr>batch_size = 2,
              items = [\<lparr>out_text = strip msg_win, pred = ''spam'',
                        proba_spam = Some (Finite (9/10))\<rparr>,
                       \<lparr>out_text = strip msg_hi, pred = ''ham'',
                        proba_spam = Some (Finite (1/10))\<rparr>]\<rparr>
   \<and> status_code (batch (Some toy_proba_bundle) 2 (Finite (1/2)) [] None) = 422
   \<and> status_code (batch (Some toy_proba_bundle) (- 1) (Finite (1/2)) [] None) = 422
   \<and> status_code (batch (Some toy_proba_bundle) 2 (Finite (1/2)) [msg_win, msg_hi, msg_hi] None)
       = 413
   \<and> status_code (batch (Some toy_proba_bundle) 2 (Finite (1/2)) [msg_win, msg_hi] None) = 200"
proof -
  have v: "vectorizer_transform toy_proba_bundle (map strip [msg_win, msg_hi])
             = Some (map strip [msg_win, msg_hi])"
    by (rule toy_proba_transform)
  have c: "classifier_contract (model toy_proba_bundle) (map strip [msg_win, msg_hi])
             (length [msg_win, msg_hi])"
    using toy_proba_contract [of "map strip [msg_win, msg_hi]"] by simp
  have pp: "predict_proba (model toy_proba_bundle) =
              Some (\<lambda>X. \<lparr>shape0 = length X, shape1 = 2,
                          item = (\<lambda>i j. if j = 1 then toy_text_score (X ! i)
                                          else Finite (1/2))\<rparr>)"
    by (simp add: toy_proba_bundle_def)
  have cl: "classes (model toy_proba_bundle) = [''ham'', ''spam'']"
    by (simp add: toy_proba_bundle_def)
  have up: "[0..<2] = [0, Suc 0]"
    by (simp add: upt_conv_Cons)
  have thr: "resolve_threshold (Finite (1/2)) None = Finite (1/2)"
    by (simp add: resolve_threshold_def)
  have ok: "batch (Some toy_proba_bundle) 2 (Finite (1/2)) [msg_win, msg_hi] None
       = Inr \<lparr>batch_size = 2,
              items = [\<lparr>out_text = strip msg_win, pred = ''spam'',
                        proba_spam = Some (Finite (9/10))\<rparr>,
                       \<lparr>out_text = strip msg_hi, pred = ''ham'',
                        proba_spam = Some (Finite (1/10))\<rparr>]\<rparr>"
    using batch_size_limits [where b = toy_proba_bundle and ts = "[msg_win, msg_hi]"
            and MAX_BATCH = 2 and T = "Finite (1/2)" and prof = None
            and X = "map strip [msg_win, msg_hi]"] v c msg_win_long msg_hi_short
    by (simp add: pp cl up thr row_labels_def spec_spam_probs_def spam_column_toy spam_label_def
          toy_text_score_def)
  have e: "status_code (batch (Some toy_proba_bundle) 2 (Finite (1/2)) [] None) = 422"
    using batch_size_limits [where b = toy_proba_bundle and ts = "[]" and MAX_BATCH = 2
            and T = "Finite (1/2)" and prof = None] by simp
  have e2: "status_code (batch (Some toy_proba_bundle) (- 1) (Finite (1/2)) [] None) = 422"
    using batch_size_limits [where b = toy_proba_bundle and ts = "[]" and MAX_BATCH = "- 1"
            and T = "Finite (1/2)" and prof = None] by simp
  have l: "status_code (batch (Some toy_proba_bundle) 2 (Finite (1/2))
             [msg_win, msg_hi, msg_hi] None) = 413"
    using batch_size_limits [where b = toy_proba_bundle and ts = "[msg_win, msg_hi, msg_hi]"
            and MAX_BATCH = 2 and T = "Finite (1/2)" and prof = None]
    by simp
  have s: "status_code (batch (Some toy_proba_bundle) 2 (Finite (1/2)) [msg_win, msg_hi] None)
             = 200"
    by (simp only: ok) simp
  show ?thesis
    by (intro conjI) (rule v, rule c, rule ok, rule e, rule e2, rule l, rule s)
qed

text \<open>
  C3.  For a text scored by \<open>predict\<close> or in a \<open>batch\<close>: when the classifier has
  probability output, the label is \<open>spam\<close> if the spam probability is at least the
  effective threshold and \<open>ham\<close> otherwise, and the result carries that probability;
  when it has only \<open>predict\<close>, the label is the predicted class, the probability is
  absent (\<open>None\<close>), and neither \<open>SPAM_THRESHOLD\<close> nor the profile changes the result.
  \<open>X1\<close> and \<open>X\<close> are the matrices the vectorizer returns for the text and for the batch.
\<close>

theorem label_from_threshold_or_raw_class:
  assumes "strip t \<noteq> []"
    and "vectorizer_transform b [strip t] = Some X1"
    and "classifier_contract (model b) X1 1"
    and "ts \<noteq> []" and "int (length ts) \<le> MAX_BATCH"
    and "vectorizer_transform b (map strip ts) = Some X"
    and "classifier_contract (model b) X (length ts)"
  shows
    "(\<forall>pp. predict_proba (model b) = Some pp \<longrightarrow>
        (let P = pp X1;
             p = item P 0 (spam_column_spec (classes (model b)) (shape1 P))
         in predict (Some b) T t prof =
              Inr \<lparr>out_text = strip t,
                   pred = (if float_ge p (resolve_threshold T prof) then ''spam'' else ''ham''),
                   proba_spam = Some p\<rparr>)
      \<and> (let P = pp X;
              j = spam_column_spec (classes (model b)) (shape1 P)
          in batch (Some b) MAX_BATCH T ts prof =
               Inr \<lparr>batch_size = length ts,
                    items = map (\<lambda>i. \<lparr>out_text = strip (ts ! i),
                                       pred = (if float_ge (item P i j) (resolve_threshold T prof)
                                               then ''spam'' else ''ham''),
                                       proba_spam = Some (item P i j)\<rparr>) [0..<length ts]\<rparr>))
   \<and> (predict_proba (model b) = None \<longrightarrow>
        (\<exists>raw. model_predict (model b) X1 = [raw]
              \<and> predict (Some b) T t prof =
                   Inr \<lparr>out_text = strip t, pred = raw, proba_spam = None\<rparr>)
      \<and> batch (Some b) MAX_BATCH T ts prof =
           Inr \<lparr>batch_size = length ts,
                items = map (\<lambda>i. \<lparr>out_text = strip (ts ! i),
                                   pred = model_predict (model b) X ! i,
                                   proba_spam = None\<rparr>) [0..<length ts]\<rparr>
      \<and> predict (Some b) T' t prof' = predict (Some b) T t prof
      \<and> batch (Some b) MAX_BATCH T' ts prof' = batch (Some b) MAX_BATCH T ts prof)"
proof (intro conjI allI impI)
  fix pp assume pp: "predict_proba (model b) = Some pp"
  let ?P = "pp X1"
  from assms(3) pp have sh: "shape0 ?P = 1" "shape1 ?P = length (classes (model b))" "0 < shape1 ?P"
    by (auto simp: classifier_contract_def)
  then have j: "spam_column_spec (classes (model b)) (shape1 ?P) < shape1 ?P"
    by (intro spam_column_spec_less) simp_all
  show "let P = pp X1;
             p = item P 0 (spam_column_spec (classes (model b)) (shape1 P))
         in predict (Some b) T t prof =
              Inr \<lparr>out_text = strip t,
                   pred = (if float_ge p (resolve_threshold T prof) then ''spam'' else ''ham''),
                   proba_spam = Some p\<rparr>"
    using predict_with_proba [OF assms(1) pp assms(2) refl refl j, of T prof] sh(1)
    by (simp add: Let_def spam_label_def)
  let ?Q = "pp X"
  from assms(7) pp have shq: "shape0 ?Q = length ts" "shape1 ?Q = length (classes (model b))"
    "0 < shape1 ?Q"
    by (auto simp: classifier_contract_def)
  then have jq: "spam_column_spec (classes (model b)) (shape1 ?Q) < shape1 ?Q"
    by (intro spam_column_spec_less) simp_all
  show "let P = pp X;
              j = spam_column_spec (classes (model b)) (shape1 P)
          in batch (Some b) MAX_BATCH T ts prof =
               Inr \<lparr>batch_size = length ts,
                    items = map (\<lambda>i. \<lparr>out_text = strip (ts ! i),
                                       pred = (if float_ge (item P i j) (resolve_threshold T prof)
                                               then ''spam'' else ''ham''),
                                       proba_spam = Some (item P i j)\<rparr>) [0..<length ts]\<rparr>"
    using batch_with_proba [OF assms(4,5) pp assms(6) refl refl jq shq(1), of T prof]
    by (simp add: Let_def spam_label_def)
next
  assume n: "predict_proba (model b) = None"
  from assms(3) n have "length (model_predict (model b) X1) = 1"
    by (simp add: classifier_contract_def)
  then obtain raw where raw: "model_predict (model b) X1 = [raw]"
    by (cases "model_predict (model b) X1") auto
  show "\<exists>raw. model_predict (model b) X1 = [raw]
              \<and> predict (Some b) T t prof =
                   Inr \<lparr>out_text = strip t, pred = raw, proba_spam = None\<rparr>"
    using predict_label_only [OF assms(1) n assms(2) raw, of T prof] raw by simp
  from assms(7) n
  have len: "length (model_predict (model b) X) = length ts"
    by (simp add: classifier_contract_def)
  have "map (\<lambda>(t, r). \<lparr>out_text = t, pred = r, proba_spam = None\<rparr>)
          (zip (map strip ts) (model_predict (model b) X))
        = map (\<lambda>i. \<lparr>out_text = strip (ts ! i),
                     pred = model_predict (model b) X ! i,
                     proba_spam = None\<rparr>) [0..<length ts]"
    using len by (intro nth_equalityI) simp_all
  then show "batch (Some b) MAX_BATCH T ts prof =
           Inr \<lparr>batch_size = length ts,
                items = map (\<lambda>i. \<lparr>out_text = strip (ts ! i),
                                   pred = model_predict (model b) X ! i,
                                   proba_spam = None\<rparr>) [0..<length ts]\<rparr>"
    using batch_label_only [OF assms(4,5) n assms(6) refl, of T prof] len by simp
  show "predict (Some b) T' t prof' = predict (Some b) T t prof"
    by (rule predict_label_only_threshold_free [OF n])
  show "batch (Some b) MAX_BATCH T' ts prof' = batch (Some b) MAX_BATCH T ts prof"
    by (rule batch_label_only_threshold_free [OF n])
qed

theorem label_from_threshold_or_raw_class_witness:
  "strip msg_win \<noteq> []
   \<and> vectorizer_transform toy_proba_bundle [strip msg_win] = Some [strip msg_win]
   \<and> classifier_contract (model toy_proba_bundle) [strip msg_win] 1
   \<and> [msg_win, msg_hi] \<noteq> [] \<and> int (length [msg_win, msg_hi]) \<le> 1000
   \<and> vectorizer_transform toy_proba_bundle (map strip [msg_win, msg_hi])
       = Some (map strip [msg_win, msg_hi])
   \<and> classifier_contract (model toy_proba_bundle) (map strip [msg_win, msg_hi])
        (length [msg_win, msg_hi])
   \<and> predict (Some toy_proba_bundle) (Finite (1/2)) msg_win (Some ''bank'')
       = Inr \<lparr>out_text = strip msg_win, pred = ''spam'', proba_spam = Some (Finite (9/10))\<rparr>
   \<and> batch (Some toy_proba_bundle) 1000 (Finite (1/2)) [msg_win, msg_hi] (Some ''bank'')
       = Inr \<lparr>batch_size = 2,
              items = [\<lparr>out_text = strip msg_win, pred = ''spam'',
                        proba_spam = Some (Finite (9/10))\<rparr>,
                       \<lparr>out_text = strip msg_hi, pred = ''ham'',
                        proba_spam = Some (Finite (1/10))\<rparr>]\<rparr>"
proof -
  have v1: "vectorizer_transform toy_proba_bundle [strip msg_win] = Some [strip msg_win]"
    by (rule toy_proba_transform)
  have c1: "classifier_contract (model toy_proba_bundle) [strip msg_win] 1"
    using toy_proba_contract [of "[strip msg_win]"] by simp
  have v2: "vectorizer_transform toy_proba_bundle (map strip [msg_win, msg_hi])
              = Some (map strip [msg_win, msg_hi])"
    by (rule toy_proba_transform)
  have c2: "classifier_contract (model toy_proba_bundle) (map strip [msg_win, msg_hi])
        (length [msg_win, msg_hi])"
    using toy_proba_contract [of "map strip [msg_win, msg_hi]"] by simp
  have thr: "resolve_threshold (Finite (1/2)) (Some ''bank'') = Finite (65/100)"
    by (intro resolve_threshold_known)
       (simp_all add: lower_bank dict_get_def PROFILE_ALIASES_def bank_in_catalog)
  have pp: "predict_proba (model toy_proba_bundle) =
              Some (\<lambda>X. \<lparr>shape0 = length X, shape1 = 2,
                          item = (\<lambda>i j. if j = 1 then toy_text_score (X ! i)
                                          else Finite (1/2))\<rparr>)"
    by (simp add: toy_proba_bundle_def)
  have cl: "classes (model toy_proba_bundle) = [''ham'', ''spam'']"
    by (simp add: toy_proba_bundle_def)
  have up: "[0..<2] = [0, Suc 0]"
    by (simp add: upt_conv_Cons)
  note th = label_from_threshold_or_raw_class
              [OF strip_msg_win_ne v1 c1 _ _ v2 c2, of 1000 "Finite (1/2)" "Some ''bank''"]
  from th pp
  show ?thesis
    using c1 c2 msg_win_long msg_hi_short strip_msg_win_ne
    by (simp add: Let_def thr cl toy_proba_transform spam_column_toy toy_text_score_def up)
qed

text \<open>
  C7.  Batch invariance: for texts that are non-empty after trimming, in a batch the
  endpoint accepts, and a vectorizer and classifier that score row by row, \<open>batch\<close>
  returns for each text the item \<open>predict\<close> returns for it alone under the same
  threshold and profile.
\<close>

theorem batch_agrees_with_single:
  assumes "list_all (\<lambda>t. strip t \<noteq> []) ts"
    and "ts \<noteq> []" and "int (length ts) \<le> MAX_BATCH"
    and "vectorizer_transform b (map strip ts) = Some X"
    and "classifier_contract (model b) X (length ts)"
    and "rowwise b (map strip ts)"
  shows "\<exists>out. batch (Some b) MAX_BATCH T ts prof = Inr out
             \<and> length (items out) = length ts
             \<and> map (\<lambda>t. predict (Some b) T t prof) ts = map Inr (items out)"
proof (cases "predict_proba (model b)")
  case None
  let ?raw = "model_predict (model b) X"
  from assms(5) None have len: "length ?raw = length ts"
    by (simp add: classifier_contract_def)
  have single: "predict (Some b) T (ts ! i) prof
                  = Inr \<lparr>out_text = strip (ts ! i), pred = ?raw ! i, proba_spam = None\<rparr>"
    if "i < length ts" for i
  proof -
    from that assms(1) have ne: "strip (ts ! i) \<noteq> []"
      by (simp add: list_all_length)
    from that assms(6) assms(4) None
    obtain Xi where xi: "vectorizer_transform b [strip (ts ! i)] = Some Xi"
      and "model_predict (model b) Xi = [?raw ! i]"
      by (auto simp: rowwise_def list_all_length split: option.splits)
    from predict_label_only [OF ne None this] show ?thesis .
  qed
  have "map (\<lambda>t. predict (Some b) T t prof) ts
        = map Inr (map (\<lambda>(t, r). \<lparr>out_text = t, pred = r, proba_spam = None\<rparr>)
                     (zip (map strip ts) ?raw))"
    using len by (intro nth_equalityI) (simp_all add: single)
  then show ?thesis
    using batch_label_only [OF assms(2,3) None assms(4) refl, of T prof] len by simp
next
  case (Some pp)
  let ?P = "pp X"
  let ?j = "spam_column_spec (classes (model b)) (shape1 ?P)"
  from assms(5) Some have sh: "shape0 ?P = length ts" "shape1 ?P = length (classes (model b))"
    "0 < shape1 ?P"
    by (auto simp: classifier_contract_def)
  then have j: "?j < shape1 ?P"
    by (intro spam_column_spec_less) simp_all
  have single: "predict (Some b) T (ts ! i) prof
                  = Inr \<lparr>out_text = strip (ts ! i),
                         pred = spam_label (item ?P i ?j) (resolve_threshold T prof),
                         proba_spam = Some (item ?P i ?j)\<rparr>"
    if "i < length ts" for i
  proof -
    from that assms(1) have ne: "strip (ts ! i) \<noteq> []"
      by (simp add: list_all_length)
    from that assms(6) assms(4) Some
    obtain Xi where xi: "vectorizer_transform b [strip (ts ! i)] = Some Xi"
      and q: "shape0 (pp Xi) = 1" "shape1 (pp Xi) = shape1 ?P"
      and row: "\<forall>k. k < shape1 ?P \<longrightarrow> item (pp Xi) 0 k = item ?P i k"
      by (auto simp: rowwise_def list_all_length split: option.splits)
    from row j have eq: "item (pp Xi) 0 ?j = item ?P i ?j" by simp
    have "predict (Some b) T (ts ! i) prof
            = Inr \<lparr>out_text = strip (ts ! i),
                   pred = spam_label (item (pp Xi) 0 ?j) (resolve_threshold T prof),
                   proba_spam = Some (item (pp Xi) 0 ?j)\<rparr>"
      using q j by (intro predict_with_proba [OF ne Some xi refl]) simp_all
    with eq show ?thesis by simp
  qed
  have "map (\<lambda>t. predict (Some b) T t prof) ts
        = map Inr (map (\<lambda>i. \<lparr>out_text = strip (ts ! i),
                              pred = spam_label (item ?P i ?j) (resolve_threshold T prof),
                              proba_spam = Some (item ?P i ?j)\<rparr>) [0..<length ts])"
    by (intro nth_equalityI) (simp_all add: single)
  then show ?thesis
    using batch_with_proba [OF assms(2,3) Some assms(4) refl refl j sh(1), of T prof] by simp
qed

theorem batch_agrees_with_single_witness:
  "list_all (\<lambda>t. strip t \<noteq> []) [msg_win, msg_hi]
   \<and> [msg_win, msg_hi] \<noteq> [] \<and> int (length [msg_win, msg_hi]) \<le> 1000
   \<and> vectorizer_transform toy_proba_bundle (map strip [msg_win, msg_hi])
       = Some (map strip [msg_win, msg_hi])
   \<and> classifier_contract (model toy_proba_bundle) (map strip [msg_win, msg_hi])
        (length [msg_win, msg_hi])
   \<and> rowwise toy_proba_bundle (map strip [msg_win, msg_hi])
   \<and> (\<exists>out. batch (Some toy_proba_bundle) 1000 (Finite (1/2)) [msg_win, msg_hi] None = Inr out
          \<and> [predict (Some toy_proba_bundle) (Finite (1/2)) msg_win None,
              predict (Some toy_proba_bundle) (Finite (1/2)) msg_hi None]
             = map Inr (items out))"
proof -
  have a: "list_all (\<lambda>t. strip t \<noteq> []) [msg_win, msg_hi]"
    by (simp add: strip_msg_win_ne strip_msg_hi_ne)
  have v: "vectorizer_transform toy_proba_bundle (map strip [msg_win, msg_hi])
             = Some (map strip [msg_win, msg_hi])"
    by (rule toy_proba_transform)
  have c: "classifier_contract (model toy_proba_bundle) (map strip [msg_win, msg_hi])
        (length [msg_win, msg_hi])"
    using toy_proba_contract [of "map strip [msg_win, msg_hi]"] by simp
  have r: "rowwise toy_proba_bundle (map strip [msg_win, msg_hi])"
    by (rule toy_proba_rowwise)
  from batch_agrees_with_single [OF a _ _ v c r, of 1000 "Finite (1/2)" None]
  show ?thesis using a v c r by auto
qed

section \<open>File upload and the command-line scorer: properties\<close>

lemma with_column_nrows: "nrows (with_column df n v) = nrows df"
  by (simp add: with_column_def)


lemma map_of_replace_other:
  "c \<noteq> n \<Longrightarrow>
   map_of (map (\<lambda>(k, w). if k = n then (k, v) else (k, w)) xs) c = map_of xs c"
  by (induction xs) (auto split: prod.splits)

lemma map_of_replace_same:
  "n \<in> fst ` set xs \<Longrightarrow>
   map_of (map (\<lambda>(k, w). if k = n then (k, v) else (k, w)) xs) n = Some v"
  by (induction xs) (auto split: prod.splits)

lemma map_of_replace:
  "n \<in> fst ` set xs \<Longrightarrow>
   map_of (map (\<lambda>(k, w). if k = n then (k, v) else (k, w)) xs) c
     = (if c = n then Some v else map_of xs c)"
  by (simp add: map_of_replace_other map_of_replace_same)

lemma map_of_append_new:
  "n \<notin> fst ` set xs \<Longrightarrow> map_of (xs @ [(n, v)]) c = (if c = n then Some v else map_of xs c)"
  by (induction xs) auto

lemma with_column_lookup:
  "map_of (cols (with_column df n v)) c = (if c = n then Some v else map_of (cols df) c)"
proof (cases "n \<in> set (columns df)")
  case True
  then show ?thesis
    by (simp add: with_column_def columns_def map_of_replace)
next
  case False
  then have "n \<notin> fst ` set (cols df)" by (simp add: columns_def)
  from map_of_append_new [OF this] False show ?thesis
    by (simp add: with_column_def del: map_of_append)
qed

lemma df_setitem_ok: "length v = nrows df \<Longrightarrow> df_setitem df n v = Inr (with_column df n v)"
  by (simp add: df_setitem_def)

lemma text_column_present: "map_of (cols df) ''text'' = Some tc \<Longrightarrow> ''text'' \<in> set (columns df)"
  by (auto simp: columns_def dest: map_of_SomeD intro: rev_image_eqI)

lemma file_predict_proba:
  assumes "name \<noteq> []"
    and "read_upload pd (lower (path_suffix name)) content = Inr df"
    and "map_of (cols df) ''text'' = Some tc"
    and "predict_proba (model b) = Some pp"
    and "vectorizer_transform b (map (astype_str pd) tc) = Some X" and "P = pp X"
    and "j = spam_column_spec (classes (model b)) (shape1 P)"
    and "j < shape1 P" and "shape0 P = nrows df"
  shows "file_predict (Some b) T pd (Some name) content prof =
           Inr \<lparr>out_name = ''prediction_'' @ path_stem name @ ''.csv'',
                body = with_column
                         (with_column df ''pred''
                            (map (\<lambda>i. Str (ustr_of (spam_label (item P i j) (resolve_threshold T prof))))
                               [0..<nrows df]))
                         ''proba_spam'' (map (\<lambda>i. Num (item P i j)) [0..<nrows df])\<rparr>"
proof -
  have idx: "(case nonzero (map (\<lambda>c. c = ''spam'') (classes (model b))) of
                i # _ \<Rightarrow> i | [] \<Rightarrow> if shape1 P = 2 then 1 else 0) = j"
    using assms(7) by (simp add: nonzero_first_index spam_column_spec_def)
  have col: "column P j = Inr (map (\<lambda>i. item P i j) [0..<nrows df])"
    using assms(8,9) by (simp add: column_def)
  have get: "df_getitem df ''text'' = Inr tc"
    using assms(3) by (simp add: df_getitem_def)
  have s1: "df_setitem df ''pred''
              (map (\<lambda>l. Str (ustr_of l))
                 (map (\<lambda>p. if float_ge p (resolve_threshold T prof) then ''spam'' else ''ham'')
                    (map (\<lambda>i. item P i j) [0..<nrows df])))
            = Inr (with_column df ''pred''
                     (map (\<lambda>i. Str (ustr_of (spam_label (item P i j) (resolve_threshold T prof))))
                        [0..<nrows df]))"
    by (simp add: df_setitem_def spam_label_def comp_def)
  have s2: "df_setitem (with_column df ''pred'' v) ''proba_spam''
              (map Num (map (\<lambda>i. item P i j) [0..<nrows df]))
            = Inr (with_column (with_column df ''pred'' v) ''proba_spam''
                     (map (\<lambda>i. Num (item P i j)) [0..<nrows df]))" for v
    by (simp add: df_setitem_def with_column_nrows comp_def)
  show ?thesis
    using assms(1,2,4,5) text_column_present [OF assms(3)] get idx col
    by (simp add: file_predict_def Let_def assms(6)[symmetric] s1 s2 del: upt_Suc map_map)
qed


lemma file_predict_label_only_threshold_free:
  assumes "predict_proba (model b) = None"
  shows "file_predict (Some b) T pd nm content prof = file_predict (Some b) T' pd nm content prof'"
  using assms by (simp add: file_predict_def Let_def split: option.splits sum.splits)

lemma read_upload_txt:
  "decode_utf8 content = Some s \<Longrightarrow>
   read_upload pd ''.txt'' content
     = Inr (DataFrame_text (map strip (filter (\<lambda>ln. strip ln \<noteq> []) (splitlines s))))"
  by (simp add: read_upload_def lines_frame_def Let_def)

lemma read_upload_csv_lines:
  "decode_utf8 content = Some s \<Longrightarrow> read_csv pd s = None \<Longrightarrow>
   read_upload pd ''.csv'' content
     = Inr (DataFrame_text (map strip (filter (\<lambda>ln. strip ln \<noteq> []) (splitlines s))))"
  by (simp add: read_upload_def lines_frame_def Let_def)

lemma read_upload_csv_parsed:
  "decode_utf8 content = Some s \<Longrightarrow> read_csv pd s = Some df \<Longrightarrow>
   read_upload pd ''.csv'' content = Inr df"
  by (simp add: read_upload_def)


lemma read_upload_undecodable:
  "decode_utf8 content = None \<Longrightarrow> ext = ''.csv'' \<or> ext = ''.txt'' \<Longrightarrow>
   read_upload pd ext content = Inl (HTTPException 400 ''Could not read file'')"
  by (auto simp: read_upload_def lines_frame_def)



lemma file_predict_status:
  assumes "name \<noteq> []" and "read_upload pd (lower (path_suffix name)) content = Inr df"
  shows "status_code (file_predict (Some b) T pd (Some name) content prof) = 200
       \<or> status_code (file_predict (Some b) T pd (Some name) content prof) = 500
       \<or> (status_code (file_predict (Some b) T pd (Some name) content prof) = 422
            \<and> ''text'' \<notin> set (columns df))"
proof -
  have col: "column P j = Inl e \<Longrightarrow> e = IndexError" for P j e
    by (auto simp: column_def split: if_splits)
  have set: "df_setitem d n v = Inl e \<Longrightarrow> e = ValueError" for d n v e
    by (auto simp: df_setitem_def split: if_splits)
  have get: "df_getitem d n = Inl e \<Longrightarrow> e = KeyError" for d n e
    by (auto simp: df_getitem_def split: option.splits)
  show ?thesis
    using assms
    by (auto simp: file_predict_def Let_def split: option.splits sum.splits prod.splits
        dest!: col set get)
qed

lemma iter_csv_from_find:
  "iter_csv_from rd le encs =
     (case List.find (\<lambda>enc. \<not> isl (rd enc)) encs of
        Some enc \<Rightarrow> rd enc
      | None \<Rightarrow> if encs = [] then Inl (case le of Some e \<Rightarrow> e | None \<Rightarrow> RuntimeError)
                else rd (last encs))"
proof (induction encs arbitrary: le)
  case Nil
  then show ?case by simp
next
  case (Cons enc encs)
  show ?case
  proof (cases "rd enc")
    case (Inr r)
    then show ?thesis by simp
  next
    case (Inl e)
    then show ?thesis
      by (cases "encs = []") (simp_all add: Cons.IH split: option.splits)
  qed
qed

text \<open>
  C2 (as stated: the upload path tries a list of encodings in turn, so that content which
  only a later encoding decodes is still ingested).  The code does otherwise: the one
  byte \<open>E9\<close>, which is not UTF-8 and which latin-1 decodes, uploaded as \<open>notes.txt\<close>,
  is answered with status 400.
\<close>

theorem upload_latin1_rejected_counterexample:
  "FALLBACK_ENCODINGS ! 0 = ''utf-8'' \<and> FALLBACK_ENCODINGS ! 3 = ''latin-1''
   \<and> decode_utf8 [0xE9] = None \<and> decode_latin1 [0xE9] = Some [233]
   \<and> file_predict (Some toy_proba_bundle) (Finite (1/2)) toy_pandas (Some ''notes.txt'') [0xE9] None
       = Inl (HTTPException 400 ''Could not read file'')"
proof -
  have ext: "lower (path_suffix ''notes.txt'') = ''.txt''" by code_simp
  have d: "decode_utf8 [0xE9] = None" by (simp add: decode_utf8_def)
  have "read_upload toy_pandas ''.txt'' [0xE9] = Inl (HTTPException 400 ''Could not read file'')"
    using d by (intro read_upload_undecodable) simp_all
  then have "file_predict (Some toy_proba_bundle) (Finite (1/2)) toy_pandas (Some ''notes.txt'')
               [0xE9] None = Inl (HTTPException 400 ''Could not read file'')"
    by (simp add: file_predict_def ext)
  then show ?thesis
    using d by (simp add: FALLBACK_ENCODINGS_def decode_latin1_def)
qed

text \<open>
  C2 (amended).  \<open>file_predict\<close> decodes the content of a \<open>.csv\<close> or \<open>.txt\<close> upload
  as UTF-8 only: when that decoding fails the request is answered with status 400, and
  when it succeeds the answer is never a 400.  The ordered list of encodings belongs to
  the command-line scorer: \<open>_iter_csv\<close> returns the reader of the first encoding of
  \<open>FALLBACK_ENCODINGS\<close> under which \<open>read_csv\<close> opens the file, and raises the error
  of the last encoding only when none does.
\<close>

theorem upload_decodes_utf8_only:
  assumes "name \<noteq> []"
    and "lower (path_suffix name) = ''.txt'' \<or> lower (path_suffix name) = ''.csv''"
  shows "(decode_utf8 content = None \<longrightarrow>
            file_predict (Some b) T pd (Some name) content prof
              = Inl (HTTPException 400 ''Could not read file''))
       \<and> (decode_utf8 content \<noteq> None \<longrightarrow>
            status_code (file_predict (Some b) T pd (Some name) content prof) \<noteq> 400)
       \<and> iter_csv rd =
            (case List.find (\<lambda>enc. \<not> isl (rd enc)) FALLBACK_ENCODINGS of
               Some enc \<Rightarrow> rd enc
             | None \<Rightarrow> rd (last FALLBACK_ENCODINGS))"
proof (intro conjI impI)
  assume d: "decode_utf8 content = None"
  from assms(2) have "read_upload pd (lower (path_suffix name)) content
                        = Inl (HTTPException 400 ''Could not read file'')"
    by (intro read_upload_undecodable [OF d]) auto
  then show "file_predict (Some b) T pd (Some name) content prof
               = Inl (HTTPException 400 ''Could not read file'')"
    using assms(1) by (simp add: file_predict_def)
next
  assume "decode_utf8 content \<noteq> None"
  then obtain s where s: "decode_utf8 content = Some s" by auto
  have "\<exists>df. read_upload pd (lower (path_suffix name)) content = Inr df"
    using assms(2)
  proof
    assume "lower (path_suffix name) = ''.txt''"
    then show ?thesis using read_upload_txt [OF s, of pd] by simp
  next
    assume e: "lower (path_suffix name) = ''.csv''"
    show ?thesis
    proof (cases "read_csv pd s")
      case None
      with e read_upload_csv_lines [OF s None] show ?thesis by simp
    next
      case (Some df)
      with e read_upload_csv_parsed [OF s Some] show ?thesis by simp
    qed
  qed
  then obtain df where "read_upload pd (lower (path_suffix name)) content = Inr df" ..
  from file_predict_status [OF assms(1) this, of b T prof]
  show "status_code (file_predict (Some b) T pd (Some name) content prof) \<noteq> 400"
    by auto
next
  show "iter_csv rd =
            (case List.find (\<lambda>enc. \<not> isl (rd enc)) FALLBACK_ENCODINGS of
               Some enc \<Rightarrow> rd enc
             | None \<Rightarrow> rd (last FALLBACK_ENCODINGS))"
    by (simp add: iter_csv_def iter_csv_from_find) (simp add: FALLBACK_ENCODINGS_def)
qed

lemma suffix_notes_txt: "lower (path_suffix ''notes.txt'') = ''.txt''"
  by code_simp


lemma decode_upload_two_lines: "decode_utf8 upload_two_lines = Some two_lines_text"
  by (simp add: decode_utf8_def upload_two_lines_def two_lines_text_def ustr_of_def)

theorem upload_decodes_utf8_only_witness:
  "''notes.txt'' \<noteq> [] \<and> lower (path_suffix ''notes.txt'') = ''.txt''
   \<and> decode_utf8 [0xE9] = None
   \<and> file_predict (Some toy_proba_bundle) (Finite (1/2)) toy_pandas (Some ''notes.txt'') [0xE9] None
       = Inl (HTTPException 400 ''Could not read file'')
   \<and> decode_utf8 upload_two_lines \<noteq> None
   \<and> status_code (file_predict (Some toy_proba_bundle) (Finite (1/2)) toy_pandas
                     (Some ''notes.txt'') upload_two_lines None) \<noteq> 400
   \<and> iter_csv toy_reader = Inr [Inr toy_table]"
proof -
  have d: "decode_utf8 [0xE9] = None" by (simp add: decode_utf8_def)
  have n: "''notes.txt'' \<noteq> []" by simp
  have e: "lower (path_suffix ''notes.txt'') = ''.txt'' \<or> lower (path_suffix ''notes.txt'') = ''.csv''"
    by (simp add: suffix_notes_txt)
  have f: "List.find (\<lambda>enc. \<not> isl (toy_reader enc)) FALLBACK_ENCODINGS = Some ''latin-1''"
    by (simp add: FALLBACK_ENCODINGS_def toy_reader_def)
  have r: "toy_reader ''latin-1'' = Inr [Inr toy_table]"
    by (simp add: toy_reader_def)
  from upload_decodes_utf8_only [OF n e, of "[0xE9]" toy_proba_bundle "Finite (1/2)" toy_pandas None
         toy_reader]
       upload_decodes_utf8_only [OF n e, of upload_two_lines toy_proba_bundle "Finite (1/2)"
         toy_pandas None toy_reader]
  show ?thesis
    using d by (simp add: suffix_notes_txt decode_upload_two_lines f r)
qed






lemma read_upload_lines:
  assumes "decode_utf8 content = Some s"
    and "ext = ''.txt'' \<or> ext = ''.csv'' \<and> read_csv pd s = None"
  shows "read_upload pd ext content = Inr (DataFrame_text (map strip (nonblank_lines s)))"
  using assms read_upload_txt [OF assms(1), of pd] read_upload_csv_lines [OF assms(1), of pd]
  by (auto simp: nonblank_lines_def)

lemma nonblank_two_lines:
  "nonblank_lines two_lines_text
     = [ustr_of ''WIN a prize'', ustr_of '' hi '']"
  by (simp add: nonblank_lines_def splitlines_def is_linebreak_def ustr_of_def strip_def
      isspace_def two_lines_text_def)

lemma strip_two_lines:
  "strip (ustr_of ''WIN a prize'') = ustr_of ''WIN a prize''"
  "strip (ustr_of '' hi '') = ustr_of ''hi''"
  by (simp_all add: ustr_of_def strip_def isspace_def)



lemma suffix_trailing_slash:
  "path_name ''notes.txt/'' = ''notes.txt''" "lower (path_suffix ''up/notes.TXT/.'') = ''.txt''"
  by code_simp+












lemma df_setitem_Inr:
  "df_setitem d n v = Inr d' \<Longrightarrow> d' = with_column d n v \<and> length v = nrows d"
  by (auto simp: df_setitem_def split: if_splits)

lemma df_getitem_Inr: "df_getitem d n = Inr c \<Longrightarrow> map_of (cols d) n = Some c"
  by (auto simp: df_getitem_def split: option.splits)

lemma main_chunk_proba:
  "(case predict_proba clf of
      Some pp \<Rightarrow>
        (let proba = pp X;
             spam_idx = np_where (map (\<lambda>c. c = ''spam'') (classes clf));
             spam_idx = (case spam_idx of i # _ \<Rightarrow> i | [] \<Rightarrow> if shape1 proba = 2 then 1 else 0)
         in column proba spam_idx)
    | None \<Rightarrow>
        (case decision_function clf of
           Some dfn \<Rightarrow>
             (case dfn X of
                D1 scores \<Rightarrow> Inr (map (sigmoid np) scores)
              | D2 a \<Rightarrow>
                  (case last_column a of
                     Inl e \<Rightarrow> Inl e
                   | Inr scores \<Rightarrow> Inr (map (sigmoid np) scores)))
         | None \<Rightarrow> Inr (replicate n NaN)))
   = cli_proba_spam np clf X n"
  by (auto simp: cli_proba_spam_def Let_def np_where_def nonzero_first_index spam_column_spec_def
      split: option.splits dfun.splits sum.splits)

lemma main_chunk_unfold:
  "main_chunk b pd np thr tcol chunk =
     (case df_getitem chunk tcol of
        Inl e \<Rightarrow> Inl e
      | Inr tc \<Rightarrow>
          (case vectorizer_transform b (map (astype_str pd) tc) of
             None \<Rightarrow> Inl TransformError
           | Some X \<Rightarrow>
          (case cli_proba_spam np (model b) X (length tc) of
             Inl e \<Rightarrow> Inl e
           | Inr ps \<Rightarrow>
               (case df_setitem chunk ''pred''
                       (map (\<lambda>l. Str (ustr_of l)) (model_predict (model b) X)) of
                  Inl e \<Rightarrow> Inl e
                | Inr o1 \<Rightarrow>
                    (case df_setitem o1 ''proba_spam'' (map Num ps) of
                       Inl e \<Rightarrow> Inl e
                     | Inr o2 \<Rightarrow>
                         (case thr of
                            None \<Rightarrow> Inr o2
                          | Some t \<Rightarrow>
                              df_setitem o2 ''pred_thresholded''
                                (map (\<lambda>p. Str (ustr_of (if float_ge p t then ''spam'' else ''ham'')))
                                   ps)))))))"
  unfolding main_chunk_def Let_def
  by (simp add: main_chunk_proba [unfolded Let_def] split: sum.splits option.splits)

lemma main_chunk_columns:
  assumes "main_chunk b pd np thr tcol chunk = Inr out"
  shows "\<exists>tc X ps. map_of (cols chunk) tcol = Some tc
           \<and> vectorizer_transform b (map (astype_str pd) tc) = Some X
           \<and> cli_proba_spam np (model b) X (length tc) = Inr ps
           \<and> length ps = nrows chunk
           \<and> nrows out = nrows chunk
           \<and> map_of (cols out) ''proba_spam'' = Some (map Num ps)
           \<and> map_of (cols out) ''pred''
               = Some (map (\<lambda>l. Str (ustr_of l)) (model_predict (model b) X))"
proof -
  from assms obtain tc where tc: "df_getitem chunk tcol = Inr tc"
    by (auto simp: main_chunk_unfold split: sum.splits)
  from assms tc obtain X where X: "vectorizer_transform b (map (astype_str pd) tc) = Some X"
    by (auto simp: main_chunk_unfold split: option.splits)
  from assms tc X obtain ps where ps: "cli_proba_spam np (model b) X (length tc) = Inr ps"
    by (auto simp: main_chunk_unfold split: sum.splits)
  let ?pr = "map (\<lambda>l. Str (ustr_of l)) (model_predict (model b) X)"
  from assms tc X ps obtain o1 where o1: "df_setitem chunk ''pred'' ?pr = Inr o1"
    by (auto simp: main_chunk_unfold split: sum.splits)
  from assms tc X ps o1 obtain o2 where o2: "df_setitem o1 ''proba_spam'' (map Num ps) = Inr o2"
    by (auto simp: main_chunk_unfold split: sum.splits)
  from df_setitem_Inr [OF o1] have e1: "o1 = with_column chunk ''pred'' ?pr" by simp
  from df_setitem_Inr [OF o2] have e2: "o2 = with_column o1 ''proba_spam'' (map Num ps)"
    and l2: "length ps = nrows o1" by simp_all
  have out: "out = o2 \<or> (\<exists>v. out = with_column o2 ''pred_thresholded'' v)"
  proof (cases thr)
    case None
    with assms tc X ps o1 o2 show ?thesis by (simp add: main_chunk_unfold)
  next
    case (Some t)
    with assms tc X ps o1 o2 have "df_setitem o2 ''pred_thresholded''
        (map (\<lambda>p. Str (ustr_of (if float_ge p t then ''spam'' else ''ham''))) ps) = Inr out"
      by (simp add: main_chunk_unfold)
    from df_setitem_Inr [OF this] show ?thesis by blast
  qed
  have n: "nrows out = nrows chunk"
    using out by (auto simp: e1 e2 with_column_nrows)
  have p1: "map_of (cols out) ''proba_spam'' = Some (map Num ps)"
    using out by (auto simp: e1 e2 with_column_lookup)
  have p2: "map_of (cols out) ''pred'' = Some ?pr"
    using out by (auto simp: e1 e2 with_column_lookup)
  from l2 have "length ps = nrows chunk"
    by (simp add: e1 with_column_nrows)
  with df_getitem_Inr [OF tc] X ps n p1 p2 show ?thesis by blast
qed

lemma main_loop_written:
  "(h, out) \<in> set (fst (main_loop b pd np isd text_col thr i tcol wh written steps)) \<Longrightarrow>
   (h, out) \<in> set written
     \<or> (\<exists>chunk tcol'. Inr chunk \<in> set steps \<and> main_chunk b pd np thr tcol' chunk = Inr out)"
proof (induction steps arbitrary: i tcol wh written)
  case Nil
  then show ?case by simp
next
  case (Cons step rest)
  show ?case
  proof (cases step)
    case (Inl e)
    with Cons.prems show ?thesis by simp
  next
    case st: (Inr chunk)
    show ?thesis
    proof (cases "if i = 0 then detect_text_col isd chunk text_col else Inr tcol")
      case (Inl e)
      with st Cons.prems show ?thesis by simp
    next
      case (Inr tc')
      show ?thesis
      proof (cases "main_chunk b pd np thr tc' chunk")
        case (Inl e)
        with st Inr Cons.prems show ?thesis by simp
      next
        case r: (Inr oc)
        from Cons.prems st Inr r
        have "(h, out) \<in> set (fst (main_loop b pd np isd text_col thr (Suc i) tc' True
                                     (written @ [(\<not> wh, oc)]) rest))"
          by (simp add: write_chunk_def)
        from Cons.IH [OF this]
        show ?thesis using r st by auto
      qed
    qed
  qed
qed

lemma main_chunk_ok:
  assumes "map_of (cols chunk) tcol = Some tc"
    and "vectorizer_transform b (map (astype_str pd) tc) = Some X"
    and "cli_proba_spam np (model b) X (length tc) = Inr ps"
    and "length ps = nrows chunk"
    and "length (model_predict (model b) X) = nrows chunk"
  shows "\<exists>out. main_chunk b pd np thr tcol chunk = Inr out"
proof -
  have g: "df_getitem chunk tcol = Inr tc"
    using assms(1) by (simp add: df_getitem_def)
  show ?thesis
    using assms(2,3,4,5)
    by (cases thr) (simp_all add: main_chunk_unfold g df_setitem_def with_column_nrows)
qed

lemma column_Inr:
  "column P j = Inr ps \<Longrightarrow> j < shape1 P \<and> ps = map (\<lambda>i. item P i j) [0..<shape0 P]"
  by (auto simp: column_def split: if_splits)

lemma cli_proba_spam_cases:
  assumes "cli_proba_spam np clf X n = Inr ps"
  shows "(\<forall>pp. predict_proba clf = Some pp \<longrightarrow> ps = spec_spam_probs clf (pp X))
       \<and> (\<forall>dfn. predict_proba clf = None \<and> decision_function clf = Some dfn \<longrightarrow>
            (\<exists>scores.
               (dfn X = D1 scores
                \<or> (\<exists>a. dfn X = D2 a \<and> 0 < shape1 a
                        \<and> scores = map (\<lambda>i. item a i (shape1 a - 1)) [0..<shape0 a]))
               \<and> ps = map (\<lambda>s. np_divide np (Finite 1)
                                  (np_add np (Finite 1) (np_exp np (np_negative np s))))
                           scores))
       \<and> (predict_proba clf = None \<and> decision_function clf = None \<longrightarrow> ps = replicate n NaN)"
proof (intro conjI allI impI)
  fix pp assume "predict_proba clf = Some pp"
  with assms have "column (pp X) (spam_column_spec (classes clf) (shape1 (pp X))) = Inr ps"
    by (simp add: cli_proba_spam_def)
  from column_Inr [OF this] show "ps = spec_spam_probs clf (pp X)"
    by (simp add: spec_spam_probs_def)
next
  fix dfn assume a: "predict_proba clf = None \<and> decision_function clf = Some dfn"
  have sg: "sigmoid np = (\<lambda>s. np_divide np (Finite 1)
                               (np_add np (Finite 1) (np_exp np (np_negative np s))))"
    by (simp add: sigmoid_def fun_eq_iff)
  show "\<exists>scores.
               (dfn X = D1 scores
                \<or> (\<exists>a. dfn X = D2 a \<and> 0 < shape1 a
                        \<and> scores = map (\<lambda>i. item a i (shape1 a - 1)) [0..<shape0 a]))
               \<and> ps = map (\<lambda>s. np_divide np (Finite 1)
                                  (np_add np (Finite 1) (np_exp np (np_negative np s))))
                           scores"
  proof (cases "dfn X")
    case (D1 scores)
    with assms a have "ps = map (sigmoid np) scores"
      by (simp add: cli_proba_spam_def)
    with D1 show ?thesis
      unfolding sg by blast
  next
    case (D2 arr)
    with assms a obtain scores where l: "last_column arr = Inr scores"
      and p: "ps = map (sigmoid np) scores"
      by (cases "last_column arr") (auto simp: cli_proba_spam_def)
    from l have nz: "0 < shape1 arr" and c: "column arr (shape1 arr - 1) = Inr scores"
      by (auto simp: last_column_def split: if_splits)
    from column_Inr [OF c] have "scores = map (\<lambda>i. item arr i (shape1 arr - 1)) [0..<shape0 arr]"
      by simp
    with D2 nz p show ?thesis
      unfolding sg by blast
  qed
next
  assume "predict_proba clf = None \<and> decision_function clf = None"
  with assms show "ps = replicate n NaN"
    by (simp add: cli_proba_spam_def)
qed

lemma sigmoid_exact:
  "sigmoid exact_numpy (Finite r) = Finite (1 / (1 + exp (- r)))"
proof -
  have "1 + exp (- r) \<noteq> 0"
    using exp_gt_zero [of "- r"] by linarith
  then show ?thesis
    by (simp add: sigmoid_def exact_numpy_def)
qed

lemma column_spec_probs:
  "spam_column_spec (classes clf) (shape1 P) < shape1 P \<Longrightarrow>
   column P (spam_column_spec (classes clf) (shape1 P)) = Inr (spec_spam_probs clf P)"
  by (simp add: column_def spec_spam_probs_def)

lemma first_index_Some:
  "x \<in> set cs \<Longrightarrow> \<exists>i. first_index x cs = Some i \<and> i < length cs \<and> cs ! i = x
                         \<and> (\<forall>k<i. cs ! k \<noteq> x)"
proof (induction cs)
  case Nil
  then show ?case by simp
next
  case (Cons c cs)
  show ?case
  proof (cases "c = x")
    case True
    then show ?thesis by simp
  next
    case False
    with Cons obtain i where i: "first_index x cs = Some i" "i < length cs" "cs ! i = x"
      "\<forall>k<i. cs ! k \<noteq> x"
      by auto
    have "\<forall>k<Suc i. (c # cs) ! k \<noteq> x"
    proof (intro allI impI)
      fix k assume "k < Suc i"
      with i(4) False show "(c # cs) ! k \<noteq> x" by (cases k) auto
    qed
    with False i show ?thesis by simp
  qed
qed

lemma first_index_None: "x \<notin> set cs \<Longrightarrow> first_index x cs = None"
  by (induction cs) auto

lemma toy_proba_is: "predict_proba (model toy_proba_bundle) = Some toy_predict_proba"
  by (simp add: toy_proba_bundle_def toy_predict_proba_def fun_eq_iff)

lemma toy_spec_probs:
  "spec_spam_probs (model toy_proba_bundle) (toy_predict_proba X) = map toy_text_score X"
proof -
  have "map (\<lambda>i. toy_text_score (X ! i)) [0..<length X] = map toy_text_score X"
    by (intro nth_equalityI) simp_all
  then show ?thesis
    by (simp add: spec_spam_probs_def toy_predict_proba_def toy_proba_bundle_def spam_column_toy)
qed

lemma toy_scores:
  "toy_text_score (ustr_of ''WIN a prize'') = Finite (9/10)"
  "toy_text_score (ustr_of ''hi'') = Finite (1/10)"
  by (simp_all add: toy_text_score_def ustr_of_def)

lemma lower_columns: "lower ''id'' = ''id''" "lower ''text'' = ''text''"
  by code_simp+

lemma toy_detect: "detect_text_col toy_is_string_dtype toy_table None = Inr ''text''"
  by (simp add: detect_text_col_def toy_table_def columns_def lower_columns List.map_filter_def)

lemma toy_getitem:
  "df_getitem toy_table ''text'' = Inr [Str (ustr_of ''WIN a prize''), Str (ustr_of ''hi'')]"
  by (simp add: df_getitem_def toy_table_def)

lemma toy_astype: "astype_str pd (Str x) = x"
  by (simp add: astype_str_def)

lemma toy_label_chunk:
  "main_chunk toy_label_bundle toy_pandas np (Some (Finite (1/2))) ''text'' toy_table
     = Inr toy_scored_table"
  by (simp add: main_chunk_unfold toy_getitem toy_astype toy_label_transform)
     (simp add: cli_proba_spam_def toy_label_bundle_def toy_table_def df_setitem_def
        with_column_def columns_def toy_scored_table_def ustr_of_def)

lemma toy_decision_chunk:
  "main_chunk toy_decision_bundle toy_pandas exact_numpy (Some (Finite (1/2))) ''text'' toy_table
     = Inr toy_scored_sigmoid"
proof -
  have v: "vectorizer_transform toy_decision_bundle ts = Some ts" for ts
    by (simp add: toy_decision_bundle_def)
  have s: "sigmoid exact_numpy (Finite 0) = Finite (1/2)"
    by (simp add: sigmoid_exact)
  show ?thesis
    by (simp add: main_chunk_unfold toy_getitem toy_astype v)
       (simp add: cli_proba_spam_def toy_decision_bundle_def s toy_table_def df_setitem_def
          with_column_def columns_def toy_scored_sigmoid_def ustr_of_def)
qed

lemma toy_proba_chunk:
  "main_chunk toy_proba_bundle toy_pandas np (Some (Finite (1/2))) ''text'' toy_table
     = Inr toy_scored_proba"
proof -
  have up: "[0..<2] = [0, Suc 0]"
    by (simp add: upt_conv_Cons)
  have c: "cli_proba_spam np (model toy_proba_bundle) [ustr_of ''WIN a prize'', ustr_of ''hi''] n
             = Inr [Finite (9/10), Finite (1/10)]" for n
    by (simp add: cli_proba_spam_def toy_proba_bundle_def spam_column_toy column_def up
          toy_scores)
  have p: "model_predict (model toy_proba_bundle) [ustr_of ''WIN a prize'', ustr_of ''hi'']
             = [''spam'', ''ham'']"
    by (simp add: toy_proba_bundle_def ustr_of_def)
  show ?thesis
    by (simp add: main_chunk_unfold toy_getitem toy_astype toy_proba_transform c p)
       (simp add: toy_table_def df_setitem_def with_column_def columns_def toy_scored_proba_def)
qed

lemma toy_iter_csv: "iter_csv toy_reader = Inr [Inr toy_table]"
  by (simp add: iter_csv_def FALLBACK_ENCODINGS_def toy_reader_def)

lemma toy_main_label:
  "main (Some toy_label_bundle) toy_pandas np toy_is_string_dtype toy_reader None
     (Some (Finite (1/2)))
     = ([(True, toy_scored_table)], None)"
  by (simp add: main_def toy_iter_csv toy_detect toy_label_chunk write_chunk_def)

lemma toy_main_decision:
  "main (Some toy_decision_bundle) toy_pandas exact_numpy toy_is_string_dtype toy_reader None
     (Some (Finite (1/2)))
     = ([(True, toy_scored_sigmoid)], None)"
  by (simp add: main_def toy_iter_csv toy_detect toy_decision_chunk write_chunk_def)

lemma toy_main_proba:
  "main (Some toy_proba_bundle) toy_pandas np toy_is_string_dtype toy_reader None
     (Some (Finite (1/2)))
     = ([(True, toy_scored_proba)], None)"
  by (simp add: main_def toy_iter_csv toy_detect toy_proba_chunk write_chunk_def)

lemma toy_main_late_error:
  "main (Some toy_proba_bundle) toy_pandas np toy_is_string_dtype toy_reader_late_error None
     (Some (Finite (1/2)))
     = ([(True, toy_scored_proba)], Some UnicodeDecodeError)"
proof -
  have "iter_csv toy_reader_late_error = Inr [Inr toy_table, Inl UnicodeDecodeError, Inr toy_table]"
    by (simp add: iter_csv_def FALLBACK_ENCODINGS_def toy_reader_late_error_def)
  then show ?thesis
    by (simp add: main_def toy_detect toy_proba_chunk write_chunk_def)
qed

lemma toy_proba_chunk_predict:
  "length (model_predict (model toy_proba_bundle) X) = length X"
  by (simp add: toy_proba_bundle_def)

text \<open>
  C4.  The column read as spam probability is the specification's: the index of the
  first class named \<open>spam\<close> if there is one, else the second column of a two-column
  matrix, else the first.  With a classifier that has probability output, \<open>predict\<close>,
  \<open>batch\<close>, \<open>file_predict\<close> and the command-line scorer each report the entries of
  that column of the matrix, where the matrix has it and has one row per text.
  \<open>X1\<close>, \<open>X\<close>, \<open>X2\<close> and \<open>X3\<close> are the matrices the vectorizer returns on the
  four paths.
\<close>

theorem spam_column_precedence:
  assumes "predict_proba (model b) = Some pp"
  shows
    "(''spam'' \<in> set cs \<longrightarrow>
        spam_column_spec cs nc < length cs \<and> cs ! spam_column_spec cs nc = ''spam''
        \<and> (\<forall>k. k < spam_column_spec cs nc \<longrightarrow> cs ! k \<noteq> ''spam''))
   \<and> (''spam'' \<notin> set cs \<longrightarrow> spam_column_spec cs nc = (if nc = 2 then 1 else 0))
   \<and> (strip t \<noteq> []
        \<and> vectorizer_transform b [strip t] = Some X1
        \<and> shape0 (pp X1) = 1
        \<and> spam_column_spec (classes (model b)) (shape1 (pp X1)) < shape1 (pp X1)
      \<longrightarrow> (\<exists>r. predict (Some b) T t prof = Inr r
              \<and> [proba_spam r] = map Some (spec_spam_probs (model b) (pp X1))))
   \<and> (ts \<noteq> [] \<and> int (length ts) \<le> MAX_BATCH
        \<and> vectorizer_transform b (map strip ts) = Some X
        \<and> shape0 (pp X) = length ts
        \<and> spam_column_spec (classes (model b)) (shape1 (pp X)) < shape1 (pp X)
      \<longrightarrow> (\<exists>r. batch (Some b) MAX_BATCH T ts prof = Inr r
              \<and> map proba_spam (items r) = map Some (spec_spam_probs (model b) (pp X))))
   \<and> (name \<noteq> [] \<and> read_upload pd (lower (path_suffix name)) content = Inr df
        \<and> map_of (cols df) ''text'' = Some tc
        \<and> vectorizer_transform b (map (astype_str pd) tc) = Some X2
        \<and> shape0 (pp X2) = nrows df
        \<and> spam_column_spec (classes (model b)) (shape1 (pp X2)) < shape1 (pp X2)
      \<longrightarrow> (\<exists>r. file_predict (Some b) T pd (Some name) content prof = Inr r
              \<and> map_of (cols (body r)) ''proba_spam''
                  = Some (map Num (spec_spam_probs (model b) (pp X2)))))
   \<and> (map_of (cols chunk) tcol = Some tc'
        \<and> vectorizer_transform b (map (astype_str pd) tc') = Some X3
        \<and> length (model_predict (model b) X3) = nrows chunk
        \<and> shape0 (pp X3) = nrows chunk
        \<and> spam_column_spec (classes (model b)) (shape1 (pp X3)) < shape1 (pp X3)
      \<longrightarrow> (\<exists>r. main_chunk b pd np cli_threshold tcol chunk = Inr r
              \<and> map_of (cols r) ''proba_spam''
                  = Some (map Num (spec_spam_probs (model b) (pp X3)))))"
proof -
  have p1: "''spam'' \<in> set cs \<longrightarrow>
        spam_column_spec cs nc < length cs \<and> cs ! spam_column_spec cs nc = ''spam''
        \<and> (\<forall>k. k < spam_column_spec cs nc \<longrightarrow> cs ! k \<noteq> ''spam'')"
  proof
    assume "''spam'' \<in> set cs"
    from first_index_Some [OF this]
    show "spam_column_spec cs nc < length cs \<and> cs ! spam_column_spec cs nc = ''spam''
        \<and> (\<forall>k. k < spam_column_spec cs nc \<longrightarrow> cs ! k \<noteq> ''spam'')"
      by (auto simp: spam_column_spec_def)
  qed
  have p2: "''spam'' \<notin> set cs \<longrightarrow> spam_column_spec cs nc = (if nc = 2 then 1 else 0)"
    using first_index_None [of "''spam''" cs] by (simp add: spam_column_spec_def)
  have p3: "strip t \<noteq> []
        \<and> vectorizer_transform b [strip t] = Some X1
        \<and> shape0 (pp X1) = 1
        \<and> spam_column_spec (classes (model b)) (shape1 (pp X1)) < shape1 (pp X1)
      \<longrightarrow> (\<exists>r. predict (Some b) T t prof = Inr r
              \<and> [proba_spam r] = map Some (spec_spam_probs (model b) (pp X1)))"
  proof
    let ?P = "pp X1"
    assume a: "strip t \<noteq> [] \<and> vectorizer_transform b [strip t] = Some X1 \<and> shape0 ?P = 1
        \<and> spam_column_spec (classes (model b)) (shape1 ?P) < shape1 ?P"
    then have "predict (Some b) T t prof =
           Inr \<lparr>out_text = strip t,
                pred = spam_label (item ?P 0 (spam_column_spec (classes (model b)) (shape1 ?P)))
                         (resolve_threshold T prof),
                proba_spam = Some (item ?P 0 (spam_column_spec (classes (model b)) (shape1 ?P)))\<rparr>"
      by (intro predict_with_proba [OF _ assms _ refl refl]) simp_all
    with a show "\<exists>r. predict (Some b) T t prof = Inr r
              \<and> [proba_spam r] = map Some (spec_spam_probs (model b) ?P)"
      by (simp add: spec_spam_probs_def)
  qed
  have p4: "ts \<noteq> [] \<and> int (length ts) \<le> MAX_BATCH
        \<and> vectorizer_transform b (map strip ts) = Some X
        \<and> shape0 (pp X) = length ts
        \<and> spam_column_spec (classes (model b)) (shape1 (pp X)) < shape1 (pp X)
      \<longrightarrow> (\<exists>r. batch (Some b) MAX_BATCH T ts prof = Inr r
              \<and> map proba_spam (items r) = map Some (spec_spam_probs (model b) (pp X)))"
  proof
    let ?P = "pp X"
    assume a: "ts \<noteq> [] \<and> int (length ts) \<le> MAX_BATCH
        \<and> vectorizer_transform b (map strip ts) = Some X \<and> shape0 ?P = length ts
        \<and> spam_column_spec (classes (model b)) (shape1 ?P) < shape1 ?P"
    then have "batch (Some b) MAX_BATCH T ts prof =
           Inr \<lparr>batch_size = length ts,
                items = map (\<lambda>i. \<lparr>out_text = strip (ts ! i),
                                   pred = spam_label (item ?P i (spam_column_spec (classes (model b)) (shape1 ?P)))
                                            (resolve_threshold T prof),
                                   proba_spam = Some (item ?P i (spam_column_spec (classes (model b)) (shape1 ?P)))\<rparr>)
                          [0..<length ts]\<rparr>"
      by (intro batch_with_proba [OF _ _ assms _ refl refl]) simp_all
    with a show "\<exists>r. batch (Some b) MAX_BATCH T ts prof = Inr r
              \<and> map proba_spam (items r) = map Some (spec_spam_probs (model b) ?P)"
      by (simp add: spec_spam_probs_def comp_def)
  qed
  have p5: "name \<noteq> [] \<and> read_upload pd (lower (path_suffix name)) content = Inr df
        \<and> map_of (cols df) ''text'' = Some tc
        \<and> vectorizer_transform b (map (astype_str pd) tc) = Some X2
        \<and> shape0 (pp X2) = nrows df
        \<and> spam_column_spec (classes (model b)) (shape1 (pp X2)) < shape1 (pp X2)
      \<longrightarrow> (\<exists>r. file_predict (Some b) T pd (Some name) content prof = Inr r
              \<and> map_of (cols (body r)) ''proba_spam''
                  = Some (map Num (spec_spam_probs (model b) (pp X2))))"
  proof
    let ?P = "pp X2"
    assume a: "name \<noteq> [] \<and> read_upload pd (lower (path_suffix name)) content = Inr df
        \<and> map_of (cols df) ''text'' = Some tc
        \<and> vectorizer_transform b (map (astype_str pd) tc) = Some X2 \<and> shape0 ?P = nrows df
        \<and> spam_column_spec (classes (model b)) (shape1 ?P) < shape1 ?P"
    then have "file_predict (Some b) T pd (Some name) content prof =
           Inr \<lparr>out_name = ''prediction_'' @ path_stem name @ ''.csv'',
                body = with_column
                         (with_column df ''pred''
                            (map (\<lambda>i. Str (ustr_of (spam_label
                                     (item ?P i (spam_column_spec (classes (model b)) (shape1 ?P)))
                                     (resolve_threshold T prof))))
                               [0..<nrows df]))
                         ''proba_spam''
                         (map (\<lambda>i. Num (item ?P i (spam_column_spec (classes (model b)) (shape1 ?P))))
                            [0..<nrows df])\<rparr>"
      by (intro file_predict_proba [OF _ _ _ assms _ refl refl, where tc = tc]) simp_all
    with a show "\<exists>r. file_predict (Some b) T pd (Some name) content prof = Inr r
              \<and> map_of (cols (body r)) ''proba_spam'' = Some (map Num (spec_spam_probs (model b) ?P))"
      by (simp add: spec_spam_probs_def comp_def with_column_lookup)
  qed
  have p6: "map_of (cols chunk) tcol = Some tc'
        \<and> vectorizer_transform b (map (astype_str pd) tc') = Some X3
        \<and> length (model_predict (model b) X3) = nrows chunk
        \<and> shape0 (pp X3) = nrows chunk
        \<and> spam_column_spec (classes (model b)) (shape1 (pp X3)) < shape1 (pp X3)
      \<longrightarrow> (\<exists>r. main_chunk b pd np cli_threshold tcol chunk = Inr r
              \<and> map_of (cols r) ''proba_spam''
                  = Some (map Num (spec_spam_probs (model b) (pp X3))))"
  proof
    let ?P = "pp X3"
    assume a: "map_of (cols chunk) tcol = Some tc'
        \<and> vectorizer_transform b (map (astype_str pd) tc') = Some X3
        \<and> length (model_predict (model b) X3) = nrows chunk \<and> shape0 ?P = nrows chunk
        \<and> spam_column_spec (classes (model b)) (shape1 ?P) < shape1 ?P"
    then have v: "vectorizer_transform b (map (astype_str pd) tc') = Some X3"
      and t: "map_of (cols chunk) tcol = Some tc'"
      and lp: "length (model_predict (model b) X3) = nrows chunk"
      by simp_all
    from a have cp: "cli_proba_spam np (model b) X3 (length tc') = Inr (spec_spam_probs (model b) ?P)"
      using assms by (simp add: cli_proba_spam_def column_spec_probs)
    have len: "length (spec_spam_probs (model b) ?P) = nrows chunk"
      using a by (simp add: spec_spam_probs_def)
    from main_chunk_ok [OF t v cp len lp, of cli_threshold]
    obtain r where r: "main_chunk b pd np cli_threshold tcol chunk = Inr r" by blast
    from main_chunk_columns [OF r] t v cp
    have "map_of (cols r) ''proba_spam'' = Some (map Num (spec_spam_probs (model b) ?P))"
      by auto
    with r show "\<exists>r. main_chunk b pd np cli_threshold tcol chunk = Inr r
              \<and> map_of (cols r) ''proba_spam'' = Some (map Num (spec_spam_probs (model b) ?P))"
      by blast
  qed
  show ?thesis
    by (intro conjI) (rule p1, rule p2, rule p3, rule p4, rule p5, rule p6)
qed

theorem spam_column_precedence_witness:
  "predict_proba (model toy_proba_bundle) = Some toy_predict_proba
   \<and> ''spam'' \<in> set [''ham'', ''spam''] \<and> spam_column_spec [''ham'', ''spam''] 2 = 1
   \<and> ''spam'' \<notin> set [''0'', ''1''] \<and> spam_column_spec [''0'', ''1''] 2 = 1
   \<and> ''spam'' \<notin> set [''a'', ''b'', ''c''] \<and> spam_column_spec [''a'', ''b'', ''c''] 3 = 0
   \<and> (\<exists>r. predict (Some toy_proba_bundle) (Finite (1/2)) msg_win None = Inr r
          \<and> [proba_spam r] = [Some (Finite (9/10))])
   \<and> (\<exists>r. batch (Some toy_proba_bundle) 1000 (Finite (1/2)) [msg_win, msg_hi] None = Inr r
          \<and> map proba_spam (items r) = [Some (Finite (9/10)), Some (Finite (1/10))])
   \<and> (\<exists>r. file_predict (Some toy_proba_bundle) (Finite (1/2)) toy_pandas (Some ''notes.txt'')
              upload_two_lines None = Inr r
          \<and> map_of (cols (body r)) ''proba_spam''
              = Some [Num (Finite (9/10)), Num (Finite (1/10))])
   \<and> (\<exists>r. main_chunk toy_proba_bundle toy_pandas exact_numpy None ''text'' toy_table = Inr r
          \<and> map_of (cols r) ''proba_spam'' = Some [Num (Finite (9/10)), Num (Finite (1/10))])"
proof -
  note pp = toy_proba_is
  note vt = toy_proba_transform
  have cl: "classes (model toy_proba_bundle) = [''ham'', ''spam'']"
    by (simp add: toy_proba_bundle_def)
  have sh: "shape0 (toy_predict_proba X) = length X" "shape1 (toy_predict_proba X) = 2" for X
    by (simp_all add: toy_predict_proba_def)
  have col: "spam_column_spec (classes (model toy_proba_bundle)) (shape1 (toy_predict_proba X))
               < shape1 (toy_predict_proba X)" for X
    by (simp add: cl sh spam_column_toy)
  have rd: "read_upload toy_pandas (lower (path_suffix ''notes.txt'')) upload_two_lines
              = Inr (DataFrame_text [ustr_of ''WIN a prize'', ustr_of ''hi''])"
    using read_upload_lines [OF decode_upload_two_lines, of "''.txt''" toy_pandas]
    by (simp add: suffix_notes_txt nonblank_two_lines strip_two_lines)
  have a1: "astype_str q (Str x) = x" for q x
    by (simp add: astype_str_def)
  note th = spam_column_precedence [OF pp]
  have f1: "spam_column_spec [''ham'', ''spam''] 2 = 1"
    and f2: "spam_column_spec [''0'', ''1''] 2 = 1"
    and f3: "spam_column_spec [''a'', ''b'', ''c''] 3 = 0"
    using th [where cs = "[''ham'', ''spam'']" and nc = 2] th [where cs = "[''0'', ''1'']" and nc = 2]
      th [where cs = "[''a'', ''b'', ''c'']" and nc = 3]
    by (simp_all add: spam_column_spec_def)
  have g1: "\<exists>r. predict (Some toy_proba_bundle) (Finite (1/2)) msg_win None = Inr r
          \<and> [proba_spam r] = [Some (Finite (9/10))]"
    using th [where t = msg_win and T = "Finite (1/2)" and prof = None
                and ?X1.0 = "[strip msg_win]"]
      strip_msg_win_ne col [of "[strip msg_win]"]
    by (simp add: vt sh toy_spec_probs strip_msg_win toy_text_score_def)
  have g2: "\<exists>r. batch (Some toy_proba_bundle) 1000 (Finite (1/2)) [msg_win, msg_hi] None = Inr r
          \<and> map proba_spam (items r) = [Some (Finite (9/10)), Some (Finite (1/10))]"
    using th [where T = "Finite (1/2)" and prof = None and ts = "[msg_win, msg_hi]"
                and MAX_BATCH = 1000 and X = "[strip msg_win, strip msg_hi]"]
      col [of "[strip msg_win, strip msg_hi]"]
    by (simp add: vt sh toy_spec_probs strip_msg_win strip_msg_hi toy_text_score_def)
  have g3: "\<exists>r. file_predict (Some toy_proba_bundle) (Finite (1/2)) toy_pandas (Some ''notes.txt'')
              upload_two_lines None = Inr r
          \<and> map_of (cols (body r)) ''proba_spam''
              = Some [Num (Finite (9/10)), Num (Finite (1/10))]"
    using th [where T = "Finite (1/2)" and prof = None and name = "''notes.txt''"
                and pd = toy_pandas and content = upload_two_lines
                and df = "DataFrame_text [ustr_of ''WIN a prize'', ustr_of ''hi'']"
                and tc = "[Str (ustr_of ''WIN a prize''), Str (ustr_of ''hi'')]"
                and ?X2.0 = "[ustr_of ''WIN a prize'', ustr_of ''hi'']"]
      rd col [of "[ustr_of ''WIN a prize'', ustr_of ''hi'']"]
    by (simp add: vt sh toy_spec_probs a1 toy_scores DataFrame_text_def)
  have g4: "\<exists>r. main_chunk toy_proba_bundle toy_pandas exact_numpy None ''text'' toy_table = Inr r
          \<and> map_of (cols r) ''proba_spam'' = Some [Num (Finite (9/10)), Num (Finite (1/10))]"
    using th [where pd = toy_pandas and chunk = toy_table and tcol = "''text''"
                and tc' = "[Str (ustr_of ''WIN a prize''), Str (ustr_of ''hi'')]"
                and cli_threshold = None and np = exact_numpy
                and ?X3.0 = "[ustr_of ''WIN a prize'', ustr_of ''hi'']"]
      col [of "[ustr_of ''WIN a prize'', ustr_of ''hi'']"]
      toy_proba_chunk_predict [of "[ustr_of ''WIN a prize'', ustr_of ''hi'']"]
    by (simp add: vt sh toy_spec_probs a1 toy_scores toy_table_def)
  show ?thesis
    using pp f1 f2 f3 g1 g2 g3 g4 by simp
qed

text \<open>
  C10.  Every chunk the command-line scorer writes has the rows of a chunk it read, a
  \<open>pred\<close> column that holds the classes \<open>predict\<close> returns for those rows, whatever
  the threshold, and a \<open>proba_spam\<close> column filled by capability precedence: the spam
  column of the \<open>predict_proba\<close> matrix if the classifier has that method; else, if
  it has \<open>decision_function\<close>, \<open>1 / (1 + exp(-s))\<close> in float arithmetic for each
  score \<open>s\<close> (the scores themselves when they are one-dimensional, the last column of
  a matrix of scores); else NaN in every row.  This holds for the chunks written before
  a later step of the reader raises, too.
\<close>

theorem cli_chunks_carry_proba_and_pred:
  assumes "(hdr, out) \<in> set (fst (main (Some b) pd np isd rd text_col cli_threshold))"
  shows "\<exists>reader chunk tcol tc X ps.
           iter_csv rd = Inr reader \<and> Inr chunk \<in> set reader
           \<and> map_of (cols chunk) tcol = Some tc
           \<and> vectorizer_transform b (map (astype_str pd) tc) = Some X
           \<and> nrows out = nrows chunk \<and> length ps = nrows chunk
           \<and> map_of (cols out) ''pred''
               = Some (map (\<lambda>l. Str (ustr_of l)) (model_predict (model b) X))
           \<and> map_of (cols out) ''proba_spam'' = Some (map Num ps)
           \<and> (\<forall>pp. predict_proba (model b) = Some pp \<longrightarrow>
                 ps = spec_spam_probs (model b) (pp X))
           \<and> (\<forall>dfn. predict_proba (model b) = None \<and> decision_function (model b) = Some dfn \<longrightarrow>
                 (\<exists>scores.
                    (dfn X = D1 scores
                     \<or> (\<exists>a. dfn X = D2 a \<and> 0 < shape1 a
                             \<and> scores = map (\<lambda>i. item a i (shape1 a - 1)) [0..<shape0 a]))
                    \<and> ps = map (\<lambda>s. np_divide np (Finite 1)
                                       (np_add np (Finite 1) (np_exp np (np_negative np s))))
                                scores))
           \<and> (predict_proba (model b) = None \<and> decision_function (model b) = None \<longrightarrow>
                 ps = replicate (nrows chunk) NaN)"
proof (cases "iter_csv rd")
  case (Inl e)
  with assms show ?thesis by (simp add: main_def)
next
  case (Inr reader)
  with assms
  have "(hdr, out) \<in> set (fst (main_loop b pd np isd text_col cli_threshold 0 [] False [] reader))"
    by (simp add: main_def)
  from main_loop_written [OF this]
  obtain chunk tcol where c: "Inr chunk \<in> set reader"
      "main_chunk b pd np cli_threshold tcol chunk = Inr out"
    by auto
  from main_chunk_columns [OF c(2)]
  obtain tc X ps where m: "map_of (cols chunk) tcol = Some tc"
      "vectorizer_transform b (map (astype_str pd) tc) = Some X"
      "cli_proba_spam np (model b) X (length tc) = Inr ps"
      "length ps = nrows chunk" "nrows out = nrows chunk"
      "map_of (cols out) ''proba_spam'' = Some (map Num ps)"
      "map_of (cols out) ''pred'' = Some (map (\<lambda>l. Str (ustr_of l)) (model_predict (model b) X))"
    by blast
  note cs = cli_proba_spam_cases [OF m(3)]
  have nan: "predict_proba (model b) = None \<and> decision_function (model b) = None \<longrightarrow>
                 ps = replicate (nrows chunk) NaN"
  proof
    assume a: "predict_proba (model b) = None \<and> decision_function (model b) = None"
    with cs have "ps = replicate (length tc) NaN" by blast
    with m(4) show "ps = replicate (nrows chunk) NaN"
      by (metis length_replicate)
  qed
  from cs have c1: "\<forall>pp. predict_proba (model b) = Some pp \<longrightarrow>
                 ps = spec_spam_probs (model b) (pp X)"
    and c2: "\<forall>dfn. predict_proba (model b) = None \<and> decision_function (model b) = Some dfn \<longrightarrow>
                 (\<exists>scores.
                    (dfn X = D1 scores
                     \<or> (\<exists>a. dfn X = D2 a \<and> 0 < shape1 a
                             \<and> scores = map (\<lambda>i. item a i (shape1 a - 1)) [0..<shape0 a]))
                    \<and> ps = map (\<lambda>s. np_divide np (Finite 1)
                                       (np_add np (Finite 1) (np_exp np (np_negative np s))))
                                scores)"
    by blast+
  show ?thesis
    apply (rule exI [where x = reader], rule exI [where x = chunk], rule exI [where x = tcol],
           rule exI [where x = tc], rule exI [where x = X], rule exI [where x = ps])
    using Inr c(1) m(1,2,4,5,6,7) c1 c2 nan
    apply (intro conjI)
    apply assumption+
    done
qed

theorem cli_chunks_carry_proba_and_pred_witness:
  "(True, toy_scored_proba)
     \<in> set (fst (main (Some toy_proba_bundle) toy_pandas exact_numpy toy_is_string_dtype toy_reader None
                    (Some (Finite (1/2)))))
   \<and> (\<exists>reader chunk tcol tc X ps.
         iter_csv toy_reader = Inr reader \<and> Inr chunk \<in> set reader
         \<and> map_of (cols chunk) tcol = Some tc
         \<and> vectorizer_transform toy_proba_bundle (map (astype_str toy_pandas) tc) = Some X
         \<and> nrows toy_scored_proba = nrows chunk \<and> length ps = nrows chunk
         \<and> map_of (cols toy_scored_proba) ''pred''
             = Some (map (\<lambda>l. Str (ustr_of l)) (model_predict (model toy_proba_bundle) X))
         \<and> map_of (cols toy_scored_proba) ''proba_spam'' = Some (map Num ps)
         \<and> (\<forall>pp. predict_proba (model toy_proba_bundle) = Some pp \<longrightarrow>
               ps = spec_spam_probs (model toy_proba_bundle) (pp X))
         \<and> (\<forall>dfn. predict_proba (model toy_proba_bundle) = None
                  \<and> decision_function (model toy_proba_bundle) = Some dfn \<longrightarrow>
               (\<exists>scores.
                  (dfn X = D1 scores
                   \<or> (\<exists>a. dfn X = D2 a \<and> 0 < shape1 a
                           \<and> scores = map (\<lambda>i. item a i (shape1 a - 1)) [0..<shape0 a]))
                  \<and> ps = map (\<lambda>s. np_divide exact_numpy (Finite 1)
                                     (np_add exact_numpy (Finite 1)
                                        (np_exp exact_numpy (np_negative exact_numpy s))))
                              scores))
         \<and> (predict_proba (model toy_proba_bundle) = None
              \<and> decision_function (model toy_proba_bundle) = None \<longrightarrow>
               ps = replicate (nrows chunk) NaN))
   \<and> (True, toy_scored_sigmoid)
     \<in> set (fst (main (Some toy_decision_bundle) toy_pandas exact_numpy toy_is_string_dtype toy_reader None
                    (Some (Finite (1/2)))))
   \<and> (\<exists>reader chunk tcol tc X ps.
         iter_csv toy_reader = Inr reader \<and> Inr chunk \<in> set reader
         \<and> map_of (cols chunk) tcol = Some tc
         \<and> vectorizer_transform toy_decision_bundle (map (astype_str toy_pandas) tc) = Some X
         \<and> nrows toy_scored_sigmoid = nrows chunk \<and> length ps = nrows chunk
         \<and> map_of (cols toy_scored_sigmoid) ''pred''
             = Some (map (\<lambda>l. Str (ustr_of l)) (model_predict (model toy_decision_bundle) X))
         \<and> map_of (cols toy_scored_sigmoid) ''proba_spam'' = Some (map Num ps)
         \<and> (\<forall>pp. predict_proba (model toy_decision_bundle) = Some pp \<longrightarrow>
               ps = spec_spam_probs (model toy_decision_bundle) (pp X))
         \<and> (\<forall>dfn. predict_proba (model toy_decision_bundle) = None
                  \<and> decision_function (model toy_decision_bundle) = Some dfn \<longrightarrow>
               (\<exists>scores.
                  (dfn X = D1 scores
                   \<or> (\<exists>a. dfn X = D2 a \<and> 0 < shape1 a
                           \<and> scores = map (\<lambda>i. item a i (shape1 a - 1)) [0..<shape0 a]))
                  \<and> ps = map (\<lambda>s. np_divide exact_numpy (Finite 1)
                                     (np_add exact_numpy (Finite 1)
                                        (np_exp exact_numpy (np_negative exact_numpy s))))
                              scores))
         \<and> (predict_proba (model toy_decision_bundle) = None
              \<and> decision_function (model toy_decision_bundle) = None \<longrightarrow>
               ps = replicate (nrows chunk) NaN))
   \<and> (True, toy_scored_table)
     \<in> set (fst (main (Some toy_label_bundle) toy_pandas exact_numpy toy_is_string_dtype toy_reader None
                    (Some (Finite (1/2)))))
   \<and> (\<exists>reader chunk tcol tc X ps.
         iter_csv toy_reader = Inr reader \<and> Inr chunk \<in> set reader
         \<and> map_of (cols chunk) tcol = Some tc
         \<and> vectorizer_transform toy_label_bundle (map (astype_str toy_pandas) tc) = Some X
         \<and> nrows toy_scored_table = nrows chunk \<and> length ps = nrows chunk
         \<and> map_of (cols toy_scored_table) ''pred''
             = Some (map (\<lambda>l. Str (ustr_of l)) (model_predict (model toy_label_bundle) X))
         \<and> map_of (cols toy_scored_table) ''proba_spam'' = Some (map Num ps)
         \<and> (\<forall>pp. predict_proba (model toy_label_bundle) = Some pp \<longrightarrow>
               ps = spec_spam_probs (model toy_label_bundle) (pp X))
         \<and> (\<forall>dfn. predict_proba (model toy_label_bundle) = None
                  \<and> decision_function (model toy_label_bundle) = Some dfn \<longrightarrow>
               (\<exists>scores.
                  (dfn X = D1 scores
                   \<or> (\<exists>a. dfn X = D2 a \<and> 0 < shape1 a
                           \<and> scores = map (\<lambda>i. item a i (shape1 a - 1)) [0..<shape0 a]))
                  \<and> ps = map (\<lambda>s. np_divide exact_numpy (Finite 1)
                                     (np_add exact_numpy (Finite 1)
                                        (np_exp exact_numpy (np_negative exact_numpy s))))
                              scores))
         \<and> (predict_proba (model toy_label_bundle) = None
              \<and> decision_function (model toy_label_bundle) = None \<longrightarrow>
               ps = replicate (nrows chunk) NaN))
   \<and> map_of (cols toy_scored_proba) ''proba_spam''
       = Some [Num (Finite (9/10)), Num (Finite (1/10))]
   \<and> map_of (cols toy_scored_sigmoid) ''proba_spam''
       = Some [Num (Finite (1/2)), Num (Finite (1/2))]
   \<and> np_divide exact_numpy (Finite 1)
       (np_add exact_numpy (Finite 1) (np_exp exact_numpy (np_negative exact_numpy (Finite 0))))
       = Finite (1/2)
   \<and> map_of (cols toy_scored_table) ''proba_spam'' = Some [Num NaN, Num NaN]
   \<and> map_of (cols toy_scored_sigmoid) ''pred'' = Some [Str (ustr_of ''spam''), Str (ustr_of ''ham'')]
   \<and> map_of (cols toy_scored_sigmoid) ''pred_thresholded''
       = Some [Str (ustr_of ''spam''), Str (ustr_of ''spam'')]
   \<and> main (Some toy_proba_bundle) toy_pandas exact_numpy toy_is_string_dtype
       toy_reader_late_error None (Some (Finite (1/2)))
       = ([(True, toy_scored_proba)], Some UnicodeDecodeError)"
proof -
  have m1: "(True, toy_scored_proba)
     \<in> set (fst (main (Some toy_proba_bundle) toy_pandas exact_numpy toy_is_string_dtype toy_reader None
                    (Some (Finite (1/2)))))"
    by (simp add: toy_main_proba)
  have m2: "(True, toy_scored_sigmoid)
     \<in> set (fst (main (Some toy_decision_bundle) toy_pandas exact_numpy toy_is_string_dtype toy_reader None
                    (Some (Finite (1/2)))))"
    by (simp add: toy_main_decision)
  have m3: "(True, toy_scored_table)
     \<in> set (fst (main (Some toy_label_bundle) toy_pandas exact_numpy toy_is_string_dtype toy_reader None
                    (Some (Finite (1/2)))))"
    by (simp add: toy_main_label)
  have v1: "map_of (cols toy_scored_proba) ''proba_spam''
       = Some [Num (Finite (9/10)), Num (Finite (1/10))]"
    by (simp add: toy_scored_proba_def)
  have v2: "map_of (cols toy_scored_sigmoid) ''proba_spam''
       = Some [Num (Finite (1/2)), Num (Finite (1/2))]"
    by (simp add: toy_scored_sigmoid_def)
  have v3: "np_divide exact_numpy (Finite 1)
       (np_add exact_numpy (Finite 1) (np_exp exact_numpy (np_negative exact_numpy (Finite 0))))
       = Finite (1/2)"
    by (simp add: exact_numpy_def)
  have v4: "map_of (cols toy_scored_table) ''proba_spam'' = Some [Num NaN, Num NaN]"
    by (simp add: toy_scored_table_def)
  have v5: "map_of (cols toy_scored_sigmoid) ''pred''
              = Some [Str (ustr_of ''spam''), Str (ustr_of ''ham'')]"
    by (simp add: toy_scored_sigmoid_def)
  have v6: "map_of (cols toy_scored_sigmoid) ''pred_thresholded''
       = Some [Str (ustr_of ''spam''), Str (ustr_of ''spam'')]"
    by (simp add: toy_scored_sigmoid_def)
  note late = toy_main_late_error [of exact_numpy]
  note t1 = cli_chunks_carry_proba_and_pred [OF m1]
  note t2 = cli_chunks_carry_proba_and_pred [OF m2]
  note t3 = cli_chunks_carry_proba_and_pred [OF m3]
  show ?thesis
    by (intro conjI)
       (rule m1, rule t1, rule m2, rule t2, rule m3, rule t3,
        rule v1, rule v2, rule v3, rule v4, rule v5, rule v6, rule late)
qed

end
